theory Spec2Isabelle
  imports Main
begin

section \<open>OCR processing for PDFs: core/ocr\_processor.py\<close>

text \<open>
  The module sequences calls into the file system, a PDF rasterizer (pdf2image on top of
  poppler) and an OCR engine (pytesseract). The embedding keeps the control flow of the two
  public methods of \<open>OCRProcessor\<close> as it is written and takes every external call as a
  field of an environment record. A call that can raise returns a sum, \<open>Inl\<close> being the
  exception. Every external call and every log record is appended to a trace, so that what
  the code did (and did not do) on the way to its result can be stated.

  Only exceptions derived from Python's \<open>Exception\<close> are modelled: they are what the
  \<open>except Exception\<close> clauses of the source catch.
\<close>

subsection \<open>Strings, bytes and formatting\<close>

text \<open>
  A Python \<open>str\<close> is a sequence of Unicode code points, a \<open>bytes\<close> object a sequence
  of octets. HOL's \<open>char\<close> is an octet, so \<open>bytes\<close> is \<open>string\<close> and \<open>str\<close> is a
  list of code points.
\<close>

type_synonym pystr = "nat list"
type_synonym bytes = string

definition lit :: "string \<Rightarrow> pystr" where
  "lit s = map of_char s"

text \<open>
  \<open>str(n)\<close> for a non-negative integer. It is used for lengths and for the small counters
  of the loops, which \<open>len\<close> and \<open>range\<close> bound by \<open>sys.maxsize\<close> (19 digits).
\<close>

function str_nat :: "nat \<Rightarrow> pystr" where
  "str_nat n = (if n < 10 then [48 + n] else str_nat (n div 10) @ [48 + n mod 10])"
  by pat_completeness auto
termination
  by (relation "measure (\<lambda>n. n)") auto

declare str_nat.simps [simp del]

text \<open>
  An exception: all that the code reads of one is \<open>str(e)\<close>.
\<close>

datatype pyexc = PyExc (exc_str: pystr)

text \<open>
  \<open>str(i)\<close> for any integer, as an f-string computes it. CPython refuses the conversion
  with a \<open>ValueError\<close> when the number has more decimal digits (the sign not counted) than
  \<open>sys.get_int_max_str_digits()\<close>, here \<open>limit\<close>: 4300 by default, 0 when there is no
  limit, never between 1 and 639.
\<close>

definition int_str_error :: "nat \<Rightarrow> pyexc" where
  "int_str_error limit =
     PyExc (lit ''Exceeds the limit ('' @ str_nat limit
       @ lit '' digits) for integer string conversion; ''
       @ lit ''use sys.set_int_max_str_digits() to increase the limit'')"

definition str_int :: "nat \<Rightarrow> int \<Rightarrow> pyexc + pystr" where
  "str_int limit i =
     (let digits = str_nat (nat \<bar>i\<bar>)
      in if 0 < limit \<and> limit < length digits then Inl (int_str_error limit)
         else Inr (if i < 0 then 45 # digits else digits))"

text \<open>\<open>sep.join(xs)\<close>\<close>

fun join :: "pystr \<Rightarrow> pystr list \<Rightarrow> pystr" where
  "join sep [] = []"
| "join sep [x] = x"
| "join sep (x # y # ys) = x @ sep @ join sep (y # ys)"

text \<open>
  \<open>str.isspace\<close> on one code point (CPython's \<open>_PyUnicode_IsWhitespace\<close>), and
  \<open>str.strip()\<close> with no argument, which removes such code points at both ends.
\<close>

definition py_isspace :: "nat \<Rightarrow> bool" where
  "py_isspace c \<longleftrightarrow>
     (9 \<le> c \<and> c \<le> 13) \<or> (28 \<le> c \<and> c \<le> 32) \<or> c = 133 \<or> c = 160 \<or> c = 5760 \<or>
     (8192 \<le> c \<and> c \<le> 8202) \<or> c = 8232 \<or> c = 8233 \<or> c = 8239 \<or> c = 8287 \<or> c = 12288"

definition strip :: "pystr \<Rightarrow> pystr" where
  "strip s = rev (dropWhile py_isspace (rev (dropWhile py_isspace s)))"

text \<open>
  \<open>repr\<close> of a tuple of four integers, as \<open>f"{zone}"\<close> prints it: the elements are
  converted in order, and the first conversion that raises ends it.
\<close>

definition repr_zone :: "nat \<Rightarrow> int \<times> int \<times> int \<times> int \<Rightarrow> pyexc + pystr" where
  "repr_zone limit z = (case z of (x, y, w, h) \<Rightarrow>
     (case str_int limit x of
        Inl e \<Rightarrow> Inl e
      | Inr sx \<Rightarrow>
          (case str_int limit y of
             Inl e \<Rightarrow> Inl e
           | Inr sy \<Rightarrow>
               (case str_int limit w of
                  Inl e \<Rightarrow> Inl e
                | Inr sw \<Rightarrow>
                    (case str_int limit h of
                       Inl e \<Rightarrow> Inl e
                     | Inr sh \<Rightarrow>
                         Inr (lit ''('' @ join (lit '', '') [sx, sy, sw, sh] @ lit '')''))))))"

subsection \<open>The environment and the trace\<close>

datatype level = DEBUG | INFO | WARNING | ERROR

text \<open>
  A file opened with mode \<open>'rb'\<close>: either its content can be read, or \<open>read\<close> raises.
  \<open>f.read(n)\<close> returns at most \<open>n\<close> octets, fewer when the file is shorter.
\<close>

datatype rfile = Readable bytes | Unreadable pyexc

definition read :: "rfile \<Rightarrow> nat \<Rightarrow> pyexc + bytes" where
  "read f n = (case f of Readable content \<Rightarrow> Inr (take n content) | Unreadable e \<Rightarrow> Inl e)"

text \<open>
  The trace: \<open>Log lvl msg exc_info\<close> is one logging call; the other events are the external
  calls, with their arguments. \<open>Convert path dpi pages poppler_path\<close> is
  \<open>convert_from_path\<close>, \<open>pages\<close> being \<open>(first_page, last_page)\<close> when they are given.
\<close>

datatype 'img event =
    Log level pystr bool
  | Exists pystr
  | Open pystr
  | Sleep nat
  | MkTemp
  | RmTemp
  | Convert pystr nat "(int \<times> int) option" pystr
  | Gray 'img
  | Crop 'img "int \<times> int \<times> int \<times> int"
  | Ocr 'img pystr pystr

text \<open>
  The external world. \<open>open_rb i p\<close> is what \<open>open(p, 'rb')\<close> does at the \<open>i\<close>-th
  attempt of the retry loop (the file may change between attempts). \<open>mkdtemp\<close> and
  \<open>rmtemp\<close> say whether entering and leaving \<open>tempfile.TemporaryDirectory()\<close> raises.
  \<open>normpath\<close>, \<open>basename\<close> and \<open>path_join\<close> are the functions of \<open>os.path\<close>, which
  depend on the platform and do not raise on strings; \<open>module_dir\<close> is
  \<open>os.path.dirname(__file__)\<close>. \<open>int_max_str_digits\<close> is
  \<open>sys.get_int_max_str_digits()\<close>, 0 on an interpreter without the limit.
\<close>

record 'img env =
  normpath :: "pystr \<Rightarrow> pystr"
  basename :: "pystr \<Rightarrow> pystr"
  path_join :: "pystr list \<Rightarrow> pystr"
  module_dir :: pystr
  path_exists :: "pystr \<Rightarrow> bool"
  open_rb :: "nat \<Rightarrow> pystr \<Rightarrow> pyexc + rfile"
  mkdtemp :: "pyexc option"
  rmtemp :: "pyexc option"
  convert_from_path :: "pystr \<Rightarrow> nat \<Rightarrow> (int \<times> int) option \<Rightarrow> pystr \<Rightarrow> pyexc + 'img list"
  convert_L :: "'img \<Rightarrow> pyexc + 'img"
  crop :: "'img \<Rightarrow> int \<times> int \<times> int \<times> int \<Rightarrow> pyexc + 'img"
  image_to_string :: "'img \<Rightarrow> pystr \<Rightarrow> pystr \<Rightarrow> pyexc + pystr"
  int_max_str_digits :: nat

type_synonym ('img, 'a) run = "'img event list \<times> (pyexc + 'a)"

subsection \<open>\<open>_preprocess_image_for_ocr\<close>\<close>

definition preprocess_image_for_ocr :: "'img env \<Rightarrow> 'img \<Rightarrow> ('img, 'img) run" where
  "preprocess_image_for_ocr E img = ([Gray img], convert_L E img)"

subsection \<open>\<open>extract_text_from_pdf\<close>\<close>

definition max_retries :: nat where
  "max_retries = 3"

definition pdf_magic :: bytes where
  "pdf_magic = ''%PDF''"

text \<open>
  The body of the inner \<open>try\<close> (lines 68 to 74): \<open>Inr (Some s)\<close> is \<open>return s\<close>,
  \<open>Inr None\<close> is \<open>break\<close>, \<open>Inl e\<close> an exception raised by \<open>open\<close> or \<open>read\<close>.
\<close>

definition open_attempt :: "'img env \<Rightarrow> pystr \<Rightarrow> nat \<Rightarrow> ('img, pystr option) run" where
  "open_attempt E pdf_path i =
     (case open_rb E i pdf_path of
        Inl e \<Rightarrow> ([Open pdf_path], Inl e)
      | Inr f \<Rightarrow>
          (case read f 4 of
             Inl e \<Rightarrow> ([Open pdf_path], Inl e)
           | Inr header \<Rightarrow>
               if header \<noteq> pdf_magic
               then ([Open pdf_path,
                      Log ERROR (lit ''Keine g'' @ [252] @ lit ''ltige PDF-Datei: '' @ pdf_path) False],
                     Inr (Some []))
               else ([Open pdf_path], Inr None)))"

text \<open>
  The loop \<open>for i in range(max_retries)\<close> over the remaining indices. \<open>Some s\<close> is
  \<open>return s\<close> out of the method, \<open>None\<close> is leaving the loop, by \<open>break\<close> or at its end.
\<close>

fun lock_check :: "'img env \<Rightarrow> pystr \<Rightarrow> nat list \<Rightarrow> 'img event list \<times> pystr option" where
  "lock_check E pdf_path [] = ([], None)"
| "lock_check E pdf_path (i # rest) =
     (case open_attempt E pdf_path i of
        (tr, Inr (Some s)) \<Rightarrow> (tr, Some s)
      | (tr, Inr None) \<Rightarrow> (tr, None)
      | (tr, Inl e) \<Rightarrow>
          if i < max_retries - 1
          then (case lock_check E pdf_path rest of
                  (tr', r) \<Rightarrow>
                    (tr @ [Log WARNING (lit ''Datei noch gesperrt, warte... ('' @ str_nat (i + 1)
                             @ lit ''/'' @ str_nat max_retries @ lit '')'') False,
                           Sleep 1] @ tr', r))
          else (tr @ [Log ERROR (lit ''Datei konnte nicht ge'' @ [246] @ lit ''ffnet werden: ''
                        @ exc_str e) False],
                Some []))"

definition page_header :: "nat \<Rightarrow> pystr" where
  "page_header i = lit ''--- Seite '' @ str_nat (i + 1) @ lit '' ---'' @ [10]"

text \<open>
  The loop \<open>for i, image in enumerate(images)\<close> (lines 98 to 104); \<open>n\<close> is
  \<open>len(images)\<close> and \<open>all_text\<close> the list the loop appends to.
\<close>

fun ocr_pages ::
  "'img env \<Rightarrow> pystr \<Rightarrow> nat \<Rightarrow> (nat \<times> 'img) list \<Rightarrow> pystr list \<Rightarrow> ('img, pystr list) run" where
  "ocr_pages E language n [] all_text = ([], Inr all_text)"
| "ocr_pages E language n ((i, img) # rest) all_text =
     (let dbg = Log DEBUG (lit ''OCR auf Seite '' @ str_nat (i + 1) @ lit ''/'' @ str_nat n) False
      in case preprocess_image_for_ocr E img of
           (tr1, Inl e) \<Rightarrow> (dbg # tr1, Inl e)
         | (tr1, Inr preprocessed_image) \<Rightarrow>
             (case image_to_string E preprocessed_image language [] of
                Inl e \<Rightarrow> (dbg # tr1 @ [Ocr preprocessed_image language []], Inl e)
              | Inr text \<Rightarrow>
                  (case ocr_pages E language n rest (all_text @ [page_header i @ text]) of
                     (tr2, r) \<Rightarrow> (dbg # tr1 @ [Ocr preprocessed_image language []] @ tr2, r))))"

definition poppler_path :: "'img env \<Rightarrow> pystr" where
  "poppler_path E =
     normpath E (path_join E [module_dir E, lit ''..'', lit ''poppler'', lit ''bin''])"

text \<open>The body of the \<open>with\<close> statement (lines 87 to 108).\<close>

definition pdf_with_body :: "'img env \<Rightarrow> pystr \<Rightarrow> pystr \<Rightarrow> ('img, pystr) run" where
  "pdf_with_body E pdf_path language =
     (if \<not> path_exists E (poppler_path E)
      then ([Exists (poppler_path E),
             Log ERROR (lit ''Poppler nicht gefunden in: '' @ poppler_path E) False], Inr [])
      else
        (case convert_from_path E pdf_path 300 None (poppler_path E) of
           Inl e \<Rightarrow> ([Exists (poppler_path E), Convert pdf_path 300 None (poppler_path E)], Inl e)
         | Inr images \<Rightarrow>
             (case ocr_pages E language (length images) (enumerate 0 images) [] of
                (tr, Inl e) \<Rightarrow>
                  ([Exists (poppler_path E), Convert pdf_path 300 None (poppler_path E)] @ tr,
                   Inl e)
              | (tr, Inr all_text) \<Rightarrow>
                  (let result_text = join [10, 10] all_text
                   in ([Exists (poppler_path E), Convert pdf_path 300 None (poppler_path E)] @ tr
                       @ [Log INFO (lit ''OCR abgeschlossen f'' @ [252] @ lit ''r ''
                            @ basename E pdf_path @ lit '': '' @ str_nat (length result_text)
                            @ lit '' Zeichen extrahiert'') False],
                       Inr result_text)))))"

text \<open>
  \<open>with tempfile.TemporaryDirectory() as temp_dir\<close>: the directory is removed when the
  body is left, by \<open>return\<close> or by an exception; an exception of the removal replaces
  the outcome of the body.
\<close>

definition with_tempdir :: "'img env \<Rightarrow> ('img, 'a) run \<Rightarrow> ('img, 'a) run" where
  "with_tempdir E body =
     (case mkdtemp E of
        Some e \<Rightarrow> ([MkTemp], Inl e)
      | None \<Rightarrow>
          (case body of
             (tr, r) \<Rightarrow>
               (case rmtemp E of
                  Some e \<Rightarrow> (MkTemp # tr @ [RmTemp], Inl e)
                | None \<Rightarrow> (MkTemp # tr @ [RmTemp], r))))"

text \<open>The body of the outer \<open>try\<close> (lines 55 to 108).\<close>

definition pdf_try_body :: "'img env \<Rightarrow> pystr \<Rightarrow> pystr \<Rightarrow> ('img, pystr) run" where
  "pdf_try_body E pdf_path0 language =
     (let pdf_path = normpath E pdf_path0
      in if \<not> path_exists E pdf_path
         then ([Exists pdf_path,
                Log ERROR (lit ''PDF-Datei nicht gefunden: '' @ pdf_path) False], Inr [])
         else
           (case lock_check E pdf_path [0..<max_retries] of
              (tr, Some s) \<Rightarrow> (Exists pdf_path # tr, Inr s)
            | (tr, None) \<Rightarrow>
                (case with_tempdir E (pdf_with_body E pdf_path language) of
                   (tr', r) \<Rightarrow>
                     (Exists pdf_path # tr
                      @ [Log DEBUG (lit ''Starte OCR f'' @ [252] @ lit ''r: '' @ pdf_path) False]
                      @ tr', r))))"

definition extract_text_from_pdf :: "'img env \<Rightarrow> pystr \<Rightarrow> pystr \<Rightarrow> ('img, pystr) run" where
  "extract_text_from_pdf E pdf_path language =
     (case pdf_try_body E pdf_path language of
        (tr, Inr s) \<Rightarrow> (tr, Inr s)
      | (tr, Inl e) \<Rightarrow>
          (tr @ [Log ERROR (lit ''Fehler bei OCR f'' @ [252] @ lit ''r '' @ normpath E pdf_path
                   @ lit '': '' @ exc_str e) True],
           Inr []))"

subsection \<open>\<open>extract_text_from_zone\<close>\<close>

definition zone_config :: pystr where
  "zone_config = lit ''--oem 3 --psm 6''"

text \<open>
  The debug record of line 129, an f-string, which formats the page number and then the zone;
  it is computed, and can raise, before \<open>logger.debug\<close> is called.
\<close>

definition zone_debug_record ::
  "'img env \<Rightarrow> pystr \<Rightarrow> int \<Rightarrow> int \<times> int \<times> int \<times> int \<Rightarrow> pyexc + pystr" where
  "zone_debug_record E pdf_path page_num zone =
     (case str_int (int_max_str_digits E) page_num of
        Inl e \<Rightarrow> Inl e
      | Inr sp \<Rightarrow>
          (case repr_zone (int_max_str_digits E) zone of
             Inl e \<Rightarrow> Inl e
           | Inr sz \<Rightarrow>
               Inr (lit ''OCR-Zone-Extraktion: '' @ pdf_path @ lit '', Seite '' @ sp
                    @ lit '', Zone '' @ sz)))"

text \<open>The body of the \<open>try\<close> (lines 121 to 157).\<close>

definition zone_try_body ::
  "'img env \<Rightarrow> pystr \<Rightarrow> int \<Rightarrow> int \<times> int \<times> int \<times> int \<Rightarrow> pystr \<Rightarrow> ('img, pystr) run" where
  "zone_try_body E pdf_path0 page_num zone language =
     (let pdf_path = normpath E pdf_path0
      in if \<not> path_exists E pdf_path
         then ([Exists pdf_path,
                Log ERROR (lit ''PDF-Datei nicht gefunden f'' @ [252] @ lit ''r Zone-OCR: ''
                  @ pdf_path) False], Inr [])
         else
           (case zone_debug_record E pdf_path page_num zone of
              Inl e \<Rightarrow> ([Exists pdf_path], Inl e)
            | Inr msg \<Rightarrow>
           (let pre = [Exists pdf_path,
                       Log DEBUG msg False,
                       Convert pdf_path 300 (Some (page_num, page_num)) (poppler_path E)]
            in case convert_from_path E pdf_path 300 (Some (page_num, page_num)) (poppler_path E) of
                 Inl e \<Rightarrow> (pre, Inl e)
               | Inr [] \<Rightarrow>
                   (case str_int (int_max_str_digits E) page_num of
                      Inl e \<Rightarrow> (pre, Inl e)
                    | Inr sp \<Rightarrow>
                        (pre @ [Log WARNING (lit ''Keine Bilder aus PDF-Seite '' @ sp
                                  @ lit '' konvertiert'') False], Inr []))
               | Inr (img # _) \<Rightarrow>
                   (case zone of (x, y, w, h) \<Rightarrow>
                      (case crop E img (x, y, x + w, y + h) of
                         Inl e \<Rightarrow> (pre @ [Crop img (x, y, x + w, y + h)], Inl e)
                       | Inr cropped \<Rightarrow>
                           (case preprocess_image_for_ocr E cropped of
                              (tr1, Inl e) \<Rightarrow> (pre @ [Crop img (x, y, x + w, y + h)] @ tr1, Inl e)
                            | (tr1, Inr preprocessed_cropped) \<Rightarrow>
                                (case image_to_string E preprocessed_cropped language zone_config of
                                   Inl e \<Rightarrow>
                                     (pre @ [Crop img (x, y, x + w, y + h)] @ tr1
                                      @ [Ocr preprocessed_cropped language zone_config], Inl e)
                                 | Inr text \<Rightarrow>
                                     (let result = strip text
                                      in (pre @ [Crop img (x, y, x + w, y + h)] @ tr1
                                          @ [Ocr preprocessed_cropped language zone_config,
                                             Log DEBUG (lit ''Zone-OCR Ergebnis: '' @ [39]
                                               @ take 50 result @ lit ''...'' @ [39] @ lit '' (''
                                               @ str_nat (length result) @ lit '' Zeichen)'') False],
                                          Inr result)))))))))"

text \<open>
  The method: the \<open>except\<close> clause (lines 159 to 161) formats the page number again, in the
  f-string of its error record. When that conversion raises, the exception leaves the method.
\<close>

definition extract_text_from_zone ::
  "'img env \<Rightarrow> pystr \<Rightarrow> int \<Rightarrow> int \<times> int \<times> int \<times> int \<Rightarrow> pystr \<Rightarrow> ('img, pystr) run" where
  "extract_text_from_zone E pdf_path page_num zone language =
     (case zone_try_body E pdf_path page_num zone language of
        (tr, Inr s) \<Rightarrow> (tr, Inr s)
      | (tr, Inl e) \<Rightarrow>
          (case str_int (int_max_str_digits E) page_num of
             Inl e' \<Rightarrow> (tr, Inl e')
           | Inr sp \<Rightarrow>
               (tr @ [Log ERROR (lit ''Fehler bei Zone OCR f'' @ [252] @ lit ''r ''
                        @ basename E (normpath E pdf_path) @ lit '', Seite '' @ sp
                        @ lit '': '' @ exc_str e) True],
                Inr [])))"

subsection \<open>Observations on traces and strings\<close>

fun is_error_log :: "'img event \<Rightarrow> bool" where
  "is_error_log (Log ERROR _ _) = True"
| "is_error_log _ = False"

fun is_warning_log :: "'img event \<Rightarrow> bool" where
  "is_warning_log (Log WARNING _ _) = True"
| "is_warning_log _ = False"

fun is_open :: "'img event \<Rightarrow> bool" where
  "is_open (Open _) = True"
| "is_open _ = False"

fun is_sleep :: "'img event \<Rightarrow> bool" where
  "is_sleep (Sleep _) = True"
| "is_sleep _ = False"

fun is_exists :: "'img event \<Rightarrow> bool" where
  "is_exists (Exists _) = True"
| "is_exists _ = False"

fun is_convert :: "'img event \<Rightarrow> bool" where
  "is_convert (Convert _ _ _ _) = True"
| "is_convert _ = False"

text \<open>The opens and sleeps of a trace, in order.\<close>

definition open_sleep :: "'img event list \<Rightarrow> 'img event list" where
  "open_sleep tr = filter (\<lambda>ev. is_open ev \<or> is_sleep ev) tr"

text \<open>
  Events that are neither a file-system check, an open, a sleep or a rasterizer call, nor a
  warning or an error record.
\<close>

definition quiet :: "'img event \<Rightarrow> bool" where
  "quiet ev \<longleftrightarrow> \<not> is_open ev \<and> \<not> is_sleep ev \<and> \<not> is_exists ev \<and> \<not> is_convert ev
     \<and> \<not> is_error_log ev \<and> \<not> is_warning_log ev"

text \<open>Python's \<open>needle in s\<close>, and the number of positions of \<open>s\<close> where \<open>needle\<close> starts.\<close>

fun occurs :: "pystr \<Rightarrow> pystr \<Rightarrow> bool" where
  "occurs needle [] = (needle = [])"
| "occurs needle (c # s) = (take (length needle) (c # s) = needle \<or> occurs needle s)"

fun occurrences :: "pystr \<Rightarrow> pystr \<Rightarrow> nat" where
  "occurrences needle [] = (if needle = [] then 1 else 0)"
| "occurrences needle (c # s) =
     (if take (length needle) (c # s) = needle then 1 else 0) + occurrences needle s"

subsection \<open>Conditions on the environment\<close>

text \<open>
  What attempt \<open>i\<close> of the retry loop meets: \<open>open\<close> or \<open>read\<close> raises; the file opens
  and its first four octets are not the signature; the file opens and they are.
\<close>

definition open_raises :: "'img env \<Rightarrow> pystr \<Rightarrow> nat \<Rightarrow> bool" where
  "open_raises E path i =
     (case open_rb E i path of
        Inl e \<Rightarrow> True
      | Inr f \<Rightarrow> (case read f 4 of Inl e \<Rightarrow> True | Inr header \<Rightarrow> False))"

definition bad_signature :: "'img env \<Rightarrow> pystr \<Rightarrow> nat \<Rightarrow> bool" where
  "bad_signature E path i =
     (case open_rb E i path of
        Inl e \<Rightarrow> False
      | Inr f \<Rightarrow> (case read f 4 of Inl e \<Rightarrow> False | Inr header \<Rightarrow> header \<noteq> pdf_magic))"

definition opens_as_pdf :: "'img env \<Rightarrow> pystr \<Rightarrow> nat \<Rightarrow> bool" where
  "opens_as_pdf E path i =
     (case open_rb E i path of
        Inl e \<Rightarrow> False
      | Inr f \<Rightarrow> (case read f 4 of Inl e \<Rightarrow> False | Inr header \<Rightarrow> header = pdf_magic))"

text \<open>The file is readable as a PDF at the first, second or third attempt.\<close>

definition readable_pdf :: "'img env \<Rightarrow> pystr \<Rightarrow> bool" where
  "readable_pdf E path \<longleftrightarrow>
     opens_as_pdf E path 0 \<or>
     (open_raises E path 0 \<and>
        (opens_as_pdf E path 1 \<or> (open_raises E path 1 \<and> opens_as_pdf E path 2)))"

text \<open>Page image \<open>img\<close> is turned to grayscale and read by the OCR engine as \<open>t\<close>.\<close>

definition ocr_reads :: "'img env \<Rightarrow> pystr \<Rightarrow> 'img \<Rightarrow> pystr \<Rightarrow> bool" where
  "ocr_reads E language img t =
     (case convert_L E img of
        Inl e \<Rightarrow> False
      | Inr g \<Rightarrow> image_to_string E g language [] = Inr t)"

subsection \<open>Concrete environments\<close>

text \<open>
  A small world for concrete runs: page images are numbers, \<open>ex\<close> lists the paths that
  exist, \<open>op i\<close> is what opening the document does at attempt \<open>i\<close>, \<open>imgs\<close> is what the
  rasterizer returns and \<open>ocr\<close> what the OCR engine reads on an image. Integers of more
  than 4300 digits are not converted to strings, as on CPython 3.11 and later.
\<close>

definition test_env ::
  "pystr list \<Rightarrow> (nat \<Rightarrow> pyexc + rfile) \<Rightarrow> nat list \<Rightarrow> (nat \<Rightarrow> pystr) \<Rightarrow> nat env" where
  "test_env ex op imgs ocr =
     \<lparr>normpath = (\<lambda>p. p), basename = (\<lambda>p. p), path_join = join [47], module_dir = lit ''core'',
      path_exists = (\<lambda>p. p \<in> set ex), open_rb = (\<lambda>i p. op i), mkdtemp = None, rmtemp = None,
      convert_from_path = (\<lambda>p dpi pages pp. Inr imgs), convert_L = (\<lambda>i. Inr i),
      crop = (\<lambda>i box. Inr i), image_to_string = (\<lambda>i lang cfg. Inr (ocr i)),
      int_max_str_digits = 4300\<rparr>"

definition a_pdf :: pystr where
  "a_pdf = lit ''a.pdf''"

definition deu :: pystr where
  "deu = lit ''deu''"

definition bin_dir :: pystr where
  "bin_dir = lit ''core/../poppler/bin''"

definition env_absent :: "nat env" where
  "env_absent = test_env [] (\<lambda>i. Inl (PyExc (lit ''ENOENT''))) [] (\<lambda>i. [])"

definition env_short :: "nat env" where
  "env_short = test_env [a_pdf, bin_dir] (\<lambda>i. Inr (Readable ''%PD'')) [] (\<lambda>i. [])"

definition pdf_file :: "nat \<Rightarrow> pyexc + rfile" where
  "pdf_file i = Inr (Readable ''%PDF-1.4 ...'')"


definition locked_file :: "nat \<Rightarrow> pyexc + rfile" where
  "locked_file i = Inl (PyExc (lit ''EACCES''))"

definition late_zip_file :: "nat \<Rightarrow> pyexc + rfile" where
  "late_zip_file i = (if i = 0 then Inl (PyExc (lit ''EACCES'')) else Inr (Readable ''PK..''))"

definition invoice_receipt :: "nat \<Rightarrow> pystr" where
  "invoice_receipt img = (if img = 1 then lit ''INVOICE'' @ [10] else lit ''RECEIPT'' @ [10])"

definition invoice_no :: "nat \<Rightarrow> pystr" where
  "invoice_no img = lit '' Invoice #123'' @ [10]"

definition marker_text :: "nat \<Rightarrow> pystr" where
  "marker_text img = lit ''--- Seite 1 ---''"

definition env_two_pages :: "nat env" where
  "env_two_pages = test_env [a_pdf, bin_dir] pdf_file [1, 2] invoice_receipt"

definition env_marker_page :: "nat env" where
  "env_marker_page = test_env [a_pdf, bin_dir] pdf_file [1] marker_text"

definition env_zero_pages :: "nat env" where
  "env_zero_pages = test_env [a_pdf, bin_dir] pdf_file [] invoice_no"

definition env_locked :: "nat env" where
  "env_locked = test_env [a_pdf, bin_dir] locked_file [1] invoice_no"

definition env_late_zip :: "nat env" where
  "env_late_zip = test_env [a_pdf, bin_dir] late_zip_file [1] invoice_no"


definition env_no_poppler :: "nat env" where
  "env_no_poppler = test_env [a_pdf] pdf_file [7] invoice_no"

text \<open>What \<open>extract_text_from_pdf\<close> returns in \<open>env_two_pages\<close>.\<close>

definition two_pages_text :: pystr where
  "two_pages_text = lit ''--- Seite 1 ---'' @ [10] @ lit ''INVOICE'' @ [10] @ [10, 10]
     @ lit ''--- Seite 2 ---'' @ [10] @ lit ''RECEIPT'' @ [10]"

text \<open>What \<open>extract_text_from_pdf\<close> returns in \<open>env_marker_page\<close>.\<close>

definition marker_page_text :: pystr where
  "marker_page_text = lit ''--- Seite 1 ---'' @ [10] @ lit ''--- Seite 1 ---''"

text \<open>
  A page number and a zone coordinate of 4301 digits, and the debug record of zone extraction
  for page 1 and the zone \<open>(0, 0, 200, 50)\<close> of \<open>a.pdf\<close>.
\<close>

definition huge_int :: int where
  "huge_int = 10 ^ 4300"

definition zone_record_1 :: pystr where
  "zone_record_1 = lit ''OCR-Zone-Extraktion: a.pdf, Seite 1, Zone (0, 0, 200, 50)''"

definition env_one_page :: "nat env" where
  "env_one_page = test_env [a_pdf, bin_dir] pdf_file [7] invoice_no"

subsection \<open>Facts used throughout\<close>

lemma range_max_retries: "[0..<max_retries] = [0, 1, 2]"
  by (simp add: max_retries_def upt_rec)

subsection \<open>One attempt to open the file\<close>

lemma attempt_trichotomy:
  "open_raises E p i \<or> bad_signature E p i \<or> opens_as_pdf E p i"
  by (simp add: open_raises_def bad_signature_def opens_as_pdf_def split: sum.splits)

lemma attempt_raises:
  "open_raises E p i \<Longrightarrow> \<exists>e. open_attempt E p i = ([Open p], Inl e)"
  by (auto simp: open_raises_def open_attempt_def split: sum.splits)

lemma attempt_bad:
  "bad_signature E p i \<Longrightarrow>
     open_attempt E p i =
       ([Open p, Log ERROR (lit ''Keine g'' @ [252] @ lit ''ltige PDF-Datei: '' @ p) False],
        Inr (Some []))"
  by (auto simp: bad_signature_def open_attempt_def split: sum.splits)

lemma attempt_good:
  "opens_as_pdf E p i \<Longrightarrow> open_attempt E p i = ([Open p], Inr None)"
  by (auto simp: opens_as_pdf_def open_attempt_def split: sum.splits)

lemma attempt_exclusive:
  "\<not> (open_raises E p i \<and> bad_signature E p i)"
  "\<not> (open_raises E p i \<and> opens_as_pdf E p i)"
  "\<not> (bad_signature E p i \<and> opens_as_pdf E p i)"
  by (auto simp: open_raises_def bad_signature_def opens_as_pdf_def split: sum.splits)

subsection \<open>The page loop\<close>

lemma quiet_simps [simp]:
  "quiet (Log DEBUG m b)" "quiet (Log INFO m b)" "quiet (Gray g)" "quiet (Ocr g l c)"
  "quiet (Crop g z)" "quiet MkTemp" "quiet RmTemp"
  by (simp_all add: quiet_def)

lemma quiet_trace:
  assumes "list_all quiet tr"
  shows "open_sleep tr = []" and "\<not> list_ex is_error_log tr" and "\<not> list_ex is_convert tr"
    and "\<not> list_ex is_open tr" and "\<not> list_ex is_sleep tr" and "filter is_exists tr = []"
    and "\<not> list_ex is_warning_log tr"
  using assms
  by (induction tr) (auto simp: quiet_def open_sleep_def)

lemma ocr_pages_quiet: "list_all quiet (fst (ocr_pages E language n ixs acc))"
proof (induction ixs arbitrary: acc)
  case Nil
  then show ?case by simp
next
  case (Cons a ixs)
  obtain i img where a: "a = (i, img)" by (cases a)
  show ?case
  proof (cases "convert_L E img")
    case (Inl e)
    then show ?thesis by (simp add: a preprocess_image_for_ocr_def)
  next
    case (Inr g)
    show ?thesis
    proof (cases "image_to_string E g language []")
      case (Inl e)
      with Inr show ?thesis by (simp add: a preprocess_image_for_ocr_def)
    next
      case (Inr t)
      with \<open>convert_L E img = Inr g\<close> Cons [of "acc @ [page_header i @ t]"] show ?thesis
        by (simp add: a preprocess_image_for_ocr_def split_beta)
    qed
  qed
qed

lemma ocr_pages_success:
  "list_all2 (ocr_reads E language) (map snd ixs) texts \<Longrightarrow>
   snd (ocr_pages E language n ixs acc) =
     Inr (acc @ map (\<lambda>((i, img), t). page_header i @ t) (zip ixs texts))"
proof (induction ixs arbitrary: acc texts)
  case Nil
  then show ?case by simp
next
  case (Cons a ixs)
  obtain i img where a: "a = (i, img)" by (cases a)
  from Cons.prems obtain t ts where texts: "texts = t # ts"
    and rd: "ocr_reads E language img t"
    and rest: "list_all2 (ocr_reads E language) (map snd ixs) ts"
    by (auto simp: a list_all2_Cons1)
  from rd obtain g where g: "convert_L E img = Inr g" "image_to_string E g language [] = Inr t"
    by (auto simp: ocr_reads_def split: sum.splits)
  from Cons.IH [OF rest, of "acc @ [page_header i @ t]"] g show ?case
    by (simp add: a texts preprocess_image_for_ocr_def split_beta)
qed

subsection \<open>The whitespace that \<open>strip\<close> removes\<close>






subsection \<open>Paths that do not exist\<close>

text \<open>
  Claim C5. When the normalized path does not exist, \<open>extract_text_from_pdf\<close> and
  \<open>extract_text_from_zone\<close> both return the empty string. All either of them does is the
  existence check and one error record; the rasterizer is not called.
\<close>

theorem missing_file_returns_empty:
  assumes "\<not> path_exists E (normpath E p)"
  shows "extract_text_from_pdf E p language =
           ([Exists (normpath E p),
             Log ERROR (lit ''PDF-Datei nicht gefunden: '' @ normpath E p) False], Inr [])
       \<and> extract_text_from_zone E p page_num zone language =
           ([Exists (normpath E p),
             Log ERROR (lit ''PDF-Datei nicht gefunden f'' @ [252] @ lit ''r Zone-OCR: ''
               @ normpath E p) False], Inr [])
       \<and> \<not> list_ex is_convert (fst (extract_text_from_pdf E p language))
       \<and> \<not> list_ex is_convert (fst (extract_text_from_zone E p page_num zone language))"
  using assms
  by (simp add: extract_text_from_pdf_def pdf_try_body_def extract_text_from_zone_def
      zone_try_body_def Let_def)

theorem missing_file_returns_empty_witness:
  "\<not> path_exists env_absent (normpath env_absent a_pdf)
   \<and> snd (extract_text_from_pdf env_absent a_pdf deu) = Inr []
   \<and> snd (extract_text_from_zone env_absent a_pdf 1 (0, 0, 200, 50) deu) = Inr []
   \<and> \<not> list_ex is_convert (fst (extract_text_from_pdf env_absent a_pdf deu))
   \<and> \<not> list_ex is_convert (fst (extract_text_from_zone env_absent a_pdf 1 (0, 0, 200, 50) deu))"
  using missing_file_returns_empty [of env_absent a_pdf deu 1 "(0, 0, 200, 50)"]
  by (simp add: env_absent_def test_env_def)

subsection \<open>Files shorter than the signature\<close>

text \<open>
  Claim C10. When the file exists and the first attempt opens it and can read it, and the
  file is shorter than 4 octets, then \<open>read(4)\<close> returns the whole content, which is not
  \<open>%PDF\<close>, and \<open>extract_text_from_pdf\<close> returns the empty string after that one attempt:
  one \<open>open\<close>, one error record, no sleep, no exception.
\<close>

theorem short_file_rejected:
  assumes "path_exists E (normpath E p)"
    and "open_rb E 0 (normpath E p) = Inr (Readable content)"
    and "length content < 4"
  shows "read (Readable content) 4 = Inr content \<and> content \<noteq> pdf_magic
       \<and> extract_text_from_pdf E p language =
           ([Exists (normpath E p), Open (normpath E p),
             Log ERROR (lit ''Keine g'' @ [252] @ lit ''ltige PDF-Datei: '' @ normpath E p) False],
            Inr [])"
proof -
  from assms(3) have neq: "content \<noteq> pdf_magic"
    by (auto simp: pdf_magic_def)
  have rd: "read (Readable content) 4 = Inr content"
    using assms(3) by (simp add: read_def)
  have att: "open_attempt E (normpath E p) 0 =
     ([Open (normpath E p),
       Log ERROR (lit ''Keine g'' @ [252] @ lit ''ltige PDF-Datei: '' @ normpath E p) False],
      Inr (Some []))"
    using assms(2) rd neq by (simp add: open_attempt_def)
  show ?thesis
    using assms(1) att rd neq
    by (simp add: extract_text_from_pdf_def pdf_try_body_def range_max_retries Let_def)
qed

theorem short_file_rejected_witness:
  "path_exists env_short (normpath env_short a_pdf)
   \<and> open_rb env_short 0 (normpath env_short a_pdf) = Inr (Readable ''%PD'')
   \<and> length ''%PD'' < 4
   \<and> read (Readable ''%PD'') 4 = Inr ''%PD''
   \<and> snd (extract_text_from_pdf env_short a_pdf deu) = Inr []
   \<and> open_sleep (fst (extract_text_from_pdf env_short a_pdf deu)) = [Open a_pdf]"
  using short_file_rejected [of env_short a_pdf "''%PD''" deu]
  by (simp add: env_short_def test_env_def open_sleep_def)

subsection \<open>The retry loop\<close>

lemma lock_step_raises:
  assumes "open_raises E p i"
  shows "\<exists>e. lock_check E p (i # js) =
           (if i < max_retries - 1
            then (Open p # Log WARNING (lit ''Datei noch gesperrt, warte... ('' @ str_nat (i + 1)
                    @ lit ''/'' @ str_nat max_retries @ lit '')'') False
                  # Sleep 1 # fst (lock_check E p js), snd (lock_check E p js))
            else ([Open p, Log ERROR (lit ''Datei konnte nicht ge'' @ [246]
                     @ lit ''ffnet werden: '' @ exc_str e) False], Some []))"
proof -
  from assms obtain e where "open_attempt E p i = ([Open p], Inl e)"
    using attempt_raises by blast
  then show ?thesis
    by (intro exI [of _ e]) (simp add: split_beta)
qed

lemma lock_step_bad:
  "bad_signature E p i \<Longrightarrow>
     lock_check E p (i # js) =
       ([Open p, Log ERROR (lit ''Keine g'' @ [252] @ lit ''ltige PDF-Datei: '' @ p) False],
        Some [])"
  by (simp add: attempt_bad)

lemma lock_step_good: "opens_as_pdf E p i \<Longrightarrow> lock_check E p (i # js) = ([Open p], None)"
  by (simp add: attempt_good)


lemma lock_result_empty: "snd (lock_check E p js) = Some s \<Longrightarrow> s = []"
proof (induction js)
  case Nil
  then show ?case by simp
next
  case (Cons i js)
  consider "open_raises E p i" | "bad_signature E p i" | "opens_as_pdf E p i"
    using attempt_trichotomy by blast
  then show ?case
  proof cases
    case 1
    then obtain e where "open_attempt E p i = ([Open p], Inl e)"
      using attempt_raises by blast
    with Cons show ?thesis
      by (auto split: if_splits prod.splits)
  next
    case 2
    with Cons.prems show ?thesis by (simp add: attempt_bad)
  next
    case 3
    with Cons.prems show ?thesis by (simp add: attempt_good)
  qed
qed

declare lock_check.simps(2) [simp del]

lemma lock_trace_events:
  "\<not> list_ex is_convert (fst (lock_check E p js)) \<and> filter is_exists (fst (lock_check E p js)) = []"
proof (induction js)
  case Nil
  then show ?case by simp
next
  case (Cons i js)
  consider "open_raises E p i" | "bad_signature E p i" | "opens_as_pdf E p i"
    using attempt_trichotomy by blast
  then show ?case
  proof cases
    case 1
    from lock_step_raises [OF this, of js] Cons show ?thesis
      by (auto split: if_splits)
  next
    case 2
    then show ?thesis by (simp add: lock_step_bad)
  next
    case 3
    then show ?thesis by (simp add: lock_step_good)
  qed
qed

lemma lock_pass_no_error:
  "snd (lock_check E p js) = None \<Longrightarrow> \<not> list_ex is_error_log (fst (lock_check E p js))"
proof (induction js)
  case Nil
  then show ?case by simp
next
  case (Cons i js)
  consider "open_raises E p i" | "bad_signature E p i" | "opens_as_pdf E p i"
    using attempt_trichotomy by blast
  then show ?case
  proof cases
    case 1
    from lock_step_raises [OF this, of js] Cons show ?thesis
      by (auto split: if_splits)
  next
    case 2
    with Cons.prems show ?thesis by (simp add: lock_step_bad)
  next
    case 3
    then show ?thesis by (simp add: lock_step_good)
  qed
qed

lemma lock_012_result:
  "snd (lock_check E p [0, 1, 2]) = (if readable_pdf E p then None else Some [])"
proof -
  have r: "\<And>i js. open_raises E p i \<Longrightarrow>
      snd (lock_check E p (i # js)) = (if i < 2 then snd (lock_check E p js) else Some [])"
    subgoal for i js
      using lock_step_raises [of E p i js] by (auto simp: max_retries_def)
    done
  have b: "\<And>i js. bad_signature E p i \<Longrightarrow> snd (lock_check E p (i # js)) = Some []"
    by (simp add: lock_step_bad)
  have g: "\<And>i js. opens_as_pdf E p i \<Longrightarrow> snd (lock_check E p (i # js)) = None"
    by (simp add: lock_step_good)
  show ?thesis
    using attempt_trichotomy [of E p 0] attempt_trichotomy [of E p 1] attempt_trichotomy [of E p 2]
      attempt_exclusive [of E p 0] attempt_exclusive [of E p 1] attempt_exclusive [of E p 2]
    by (auto simp: readable_pdf_def r b g)
qed

lemma lock_012_opens:
  "open_sleep (fst (lock_check E p [0, 1, 2])) =
     (if open_raises E p 0
      then (if open_raises E p 1
            then [Open p, Sleep 1, Open p, Sleep 1, Open p]
            else [Open p, Sleep 1, Open p])
      else [Open p])"
proof -
  have r: "\<And>i js. open_raises E p i \<Longrightarrow>
      open_sleep (fst (lock_check E p (i # js))) =
        (if i < 2 then Open p # Sleep 1 # open_sleep (fst (lock_check E p js)) else [Open p])"
    subgoal for i js
      using lock_step_raises [of E p i js] by (auto simp: max_retries_def open_sleep_def)
    done
  have b: "\<And>i js. bad_signature E p i \<Longrightarrow> open_sleep (fst (lock_check E p (i # js))) = [Open p]"
    by (simp add: lock_step_bad open_sleep_def)
  have g: "\<And>i js. opens_as_pdf E p i \<Longrightarrow> open_sleep (fst (lock_check E p (i # js))) = [Open p]"
    by (simp add: lock_step_good open_sleep_def)
  show ?thesis
    using attempt_trichotomy [of E p 0] attempt_trichotomy [of E p 1] attempt_trichotomy [of E p 2]
      attempt_exclusive [of E p 0] attempt_exclusive [of E p 1] attempt_exclusive [of E p 2]
    by (auto simp: r b g)
qed

subsection \<open>The structure of a run of \<open>extract_text_from_pdf\<close>\<close>

lemma pdf_fail:
  assumes "path_exists E (normpath E p)" and "\<not> readable_pdf E (normpath E p)"
  shows "extract_text_from_pdf E p language =
           (Exists (normpath E p) # fst (lock_check E (normpath E p) [0, 1, 2]), Inr [])"
  using assms lock_012_result [of E "normpath E p"]
  by (simp add: extract_text_from_pdf_def pdf_try_body_def range_max_retries Let_def split_beta
      split: option.splits)

lemma pdf_pass:
  assumes "path_exists E (normpath E p)" and "readable_pdf E (normpath E p)"
  shows "extract_text_from_pdf E p language =
     (case with_tempdir E (pdf_with_body E (normpath E p) language) of
        (tr', Inr s) \<Rightarrow>
          (Exists (normpath E p) # fst (lock_check E (normpath E p) [0, 1, 2])
           @ Log DEBUG (lit ''Starte OCR f'' @ [252] @ lit ''r: '' @ normpath E p) False # tr',
           Inr s)
      | (tr', Inl e) \<Rightarrow>
          (Exists (normpath E p) # fst (lock_check E (normpath E p) [0, 1, 2])
           @ Log DEBUG (lit ''Starte OCR f'' @ [252] @ lit ''r: '' @ normpath E p) False # tr'
           @ [Log ERROR (lit ''Fehler bei OCR f'' @ [252] @ lit ''r '' @ normpath E p
                @ lit '': '' @ exc_str e) True],
           Inr []))"
  using assms lock_012_result [of E "normpath E p"]
  by (simp add: extract_text_from_pdf_def pdf_try_body_def range_max_retries Let_def split_beta
      split: option.splits sum.splits)

lemma tempdir_returns:
  assumes "snd (with_tempdir E body) = Inr s"
  shows "mkdtemp E = None" and "rmtemp E = None" and "snd body = Inr s"
    and "fst (with_tempdir E body) = MkTemp # fst body @ [RmTemp]"
  using assms by (auto simp: with_tempdir_def split_beta split: option.splits)

lemma tempdir_trace:
  "fst (with_tempdir E body) = [MkTemp] \<or> fst (with_tempdir E body) = MkTemp # fst body @ [RmTemp]"
  by (simp add: with_tempdir_def split_beta split: option.splits)

lemma body_missing_poppler:
  "\<not> path_exists E (poppler_path E) \<Longrightarrow>
     pdf_with_body E path language =
       ([Exists (poppler_path E),
         Log ERROR (lit ''Poppler nicht gefunden in: '' @ poppler_path E) False], Inr [])"
  by (simp add: pdf_with_body_def)

lemma body_convert_raises:
  "path_exists E (poppler_path E) \<Longrightarrow>
   convert_from_path E path 300 None (poppler_path E) = Inl e \<Longrightarrow>
     pdf_with_body E path language =
       ([Exists (poppler_path E), Convert path 300 None (poppler_path E)], Inl e)"
  by (simp add: pdf_with_body_def)

lemma body_converted:
  assumes "path_exists E (poppler_path E)"
    and "convert_from_path E path 300 None (poppler_path E) = Inr images"
  shows "pdf_with_body E path language =
     (case ocr_pages E language (length images) (enumerate 0 images) [] of
        (tr, Inl e) \<Rightarrow>
          (Exists (poppler_path E) # Convert path 300 None (poppler_path E) # tr, Inl e)
      | (tr, Inr all_text) \<Rightarrow>
          (Exists (poppler_path E) # Convert path 300 None (poppler_path E) # tr
           @ [Log INFO (lit ''OCR abgeschlossen f'' @ [252] @ lit ''r '' @ basename E path
                @ lit '': '' @ str_nat (length (join [10, 10] all_text))
                @ lit '' Zeichen extrahiert'') False],
           Inr (join [10, 10] all_text)))"
  using assms by (simp add: pdf_with_body_def Let_def split: prod.splits sum.splits)

lemma body_open_sleep: "open_sleep (fst (pdf_with_body E path language)) = []"
proof (cases "path_exists E (poppler_path E)")
  case False
  then show ?thesis by (simp add: body_missing_poppler open_sleep_def)
next
  case True
  show ?thesis
  proof (cases "convert_from_path E path 300 None (poppler_path E)")
    case (Inl e)
    with True show ?thesis by (simp add: body_convert_raises open_sleep_def)
  next
    case (Inr images)
    have "open_sleep (fst (ocr_pages E language (length images) (enumerate 0 images) [])) = []"
      using ocr_pages_quiet quiet_trace(1) by blast
    then show ?thesis
      by (simp add: body_converted [OF True Inr] split_beta open_sleep_def split: sum.splits)
  qed
qed

lemma body_returns_clean:
  assumes "snd (pdf_with_body E path language) = Inr s"
  shows "s = [] \<or> \<not> list_ex is_error_log (fst (pdf_with_body E path language))"
proof (cases "path_exists E (poppler_path E)")
  case False
  with assms show ?thesis by (simp add: body_missing_poppler)
next
  case True
  show ?thesis
  proof (cases "convert_from_path E path 300 None (poppler_path E)")
    case (Inl e)
    with True assms show ?thesis by (simp add: body_convert_raises)
  next
    case (Inr images)
    have "\<not> list_ex is_error_log (fst (ocr_pages E language (length images) (enumerate 0 images) []))"
      using ocr_pages_quiet quiet_trace(2) by blast
    then show ?thesis
      by (simp add: body_converted [OF True Inr] split_beta split: sum.splits)
  qed
qed

subsection \<open>The structure of a run of \<open>extract_text_from_zone\<close>\<close>

lemma str_int_raises:
  "0 < limit \<Longrightarrow> limit < length (str_nat (nat \<bar>i\<bar>)) \<Longrightarrow>
     str_int limit i = Inl (int_str_error limit)"
  by (simp add: str_int_def Let_def)

lemma str_int_returns:
  "\<not> (0 < limit \<and> limit < length (str_nat (nat \<bar>i\<bar>))) \<Longrightarrow>
     str_int limit i =
       Inr (if i < 0 then 45 # str_nat (nat \<bar>i\<bar>) else str_nat (nat \<bar>i\<bar>))"
  by (simp add: str_int_def Let_def)

lemma str_nat_nonempty: "0 < length (str_nat n)"
  by (subst str_nat.simps) simp

lemma str_nat_long: "10 ^ k \<le> n \<Longrightarrow> k < length (str_nat n)"
proof (induction k arbitrary: n)
  case 0
  show ?case by (rule str_nat_nonempty)
next
  case (Suc k)
  from Suc.prems have big: "10 * 10 ^ k \<le> n" by simp
  then have "10 ^ k \<le> n div 10" by simp
  then have "k < length (str_nat (n div 10))" by (rule Suc.IH)
  moreover have "\<not> n < 10"
    using big by (simp add: not_less) (metis mult.right_neutral mult_le_mono2 one_le_numeral
        one_le_power order_trans)
  ultimately show ?case
    by (subst str_nat.simps) simp
qed

lemma record_page_raises:
  "str_int (int_max_str_digits E) page_num = Inl e \<Longrightarrow>
     zone_debug_record E pdf_path page_num zone = Inl e"
  by (simp add: zone_debug_record_def)

lemma record_page_formats:
  "zone_debug_record E pdf_path page_num zone = Inr msg \<Longrightarrow>
     \<exists>sp. str_int (int_max_str_digits E) page_num = Inr sp"
  by (auto simp: zone_debug_record_def split: sum.splits)

lemma record_coordinates_format:
  "zone_debug_record E pdf_path page_num (x, y, w, h) = Inr msg \<Longrightarrow>
     \<exists>sp sx sy sw sh.
       str_int (int_max_str_digits E) page_num = Inr sp
     \<and> str_int (int_max_str_digits E) x = Inr sx \<and> str_int (int_max_str_digits E) y = Inr sy
     \<and> str_int (int_max_str_digits E) w = Inr sw \<and> str_int (int_max_str_digits E) h = Inr sh
     \<and> msg = lit ''OCR-Zone-Extraktion: '' @ pdf_path @ lit '', Seite '' @ sp @ lit '', Zone ''
           @ lit ''('' @ join (lit '', '') [sx, sy, sw, sh] @ lit '')''"
  by (auto simp: zone_debug_record_def repr_zone_def split: sum.splits)


lemma zone_record_raises:
  assumes "path_exists E (normpath E p)"
    and "zone_debug_record E (normpath E p) page_num zone = Inl e"
  shows "zone_try_body E p page_num zone language = ([Exists (normpath E p)], Inl e)"
  using assms by (simp add: zone_try_body_def Let_def)

lemma zone_raises_to_caller:
  assumes "path_exists E (normpath E p)"
    and "str_int (int_max_str_digits E) page_num = Inl e"
  shows "extract_text_from_zone E p page_num zone language = ([Exists (normpath E p)], Inl e)"
  using assms(2) zone_record_raises [OF assms(1) record_page_raises [OF assms(2)]]
  by (simp add: extract_text_from_zone_def)

lemma zone_bad_coordinate:
  assumes "path_exists E (normpath E p)"
    and "str_int (int_max_str_digits E) page_num = Inr sp"
    and "zone_debug_record E (normpath E p) page_num zone = Inl e"
  shows "extract_text_from_zone E p page_num zone language =
     ([Exists (normpath E p),
       Log ERROR (lit ''Fehler bei Zone OCR f'' @ [252] @ lit ''r ''
         @ basename E (normpath E p) @ lit '', Seite '' @ sp @ lit '': '' @ exc_str e) True],
      Inr [])"
  using assms(2) zone_record_raises [OF assms(1,3)]
  by (simp add: extract_text_from_zone_def)

lemma zone_trace_prefix:
  assumes "path_exists E (normpath E p)"
    and "zone_debug_record E (normpath E p) page_num zone = Inr msg"
  shows "\<exists>rest. fst (extract_text_from_zone E p page_num zone language) =
           [Exists (normpath E p), Log DEBUG msg False,
            Convert (normpath E p) 300 (Some (page_num, page_num)) (poppler_path E)] @ rest
         \<and> \<not> list_ex is_open rest \<and> \<not> list_ex is_sleep rest \<and> filter is_exists rest = []
         \<and> \<not> list_ex is_convert rest"
proof -
  from record_page_formats [OF assms(2)] obtain sp where
    "str_int (int_max_str_digits E) page_num = Inr sp" by blast
  with assms show ?thesis
    by (auto simp: extract_text_from_zone_def zone_try_body_def Let_def
        preprocess_image_for_ocr_def split: sum.splits list.splits prod.splits)
qed

lemma zone_trace_io:
  "\<not> list_ex is_open (fst (extract_text_from_zone E p page_num zone language))"
  "\<not> list_ex is_sleep (fst (extract_text_from_zone E p page_num zone language))"
  "filter is_exists (fst (extract_text_from_zone E p page_num zone language)) =
     [Exists (normpath E p)]"
proof -
  have "\<not> list_ex is_open (fst (extract_text_from_zone E p page_num zone language))
      \<and> \<not> list_ex is_sleep (fst (extract_text_from_zone E p page_num zone language))
      \<and> filter is_exists (fst (extract_text_from_zone E p page_num zone language)) =
          [Exists (normpath E p)]"
  proof (cases "path_exists E (normpath E p)")
    case False
    then show ?thesis
      by (simp add: extract_text_from_zone_def zone_try_body_def Let_def)
  next
    case True
    show ?thesis
    proof (cases "zone_debug_record E (normpath E p) page_num zone")
      case (Inl e)
      from zone_record_raises [OF True Inl] show ?thesis
        by (simp add: extract_text_from_zone_def split: sum.splits)
    next
      case (Inr msg)
      from zone_trace_prefix [OF True Inr, of language] show ?thesis
        by auto
    qed
  qed
  then show "\<not> list_ex is_open (fst (extract_text_from_zone E p page_num zone language))"
    and "\<not> list_ex is_sleep (fst (extract_text_from_zone E p page_num zone language))"
    and "filter is_exists (fst (extract_text_from_zone E p page_num zone language)) =
          [Exists (normpath E p)]"
    by simp_all
qed


lemma zone_failures_empty:
  assumes "list_ex is_error_log (fst (extract_text_from_zone E p page_num zone language))
         \<or> list_ex is_warning_log (fst (extract_text_from_zone E p page_num zone language))"
  shows "snd (extract_text_from_zone E p page_num zone language) = Inr []"
  using assms
  by (auto simp: extract_text_from_zone_def zone_try_body_def Let_def
      preprocess_image_for_ocr_def split: sum.splits list.splits prod.splits if_splits)

lemma zone_total_if_page_formats:
  "str_int (int_max_str_digits E) page_num = Inr sp \<Longrightarrow>
     \<exists>r. snd (extract_text_from_zone E p page_num zone language) = Inr r"
  by (auto simp: extract_text_from_zone_def split: sum.splits prod.splits)


lemma zone_success:
  assumes "path_exists E (normpath E p)"
    and "zone_debug_record E (normpath E p) page_num (x, y, w, h) = Inr msg"
    and "convert_from_path E (normpath E p) 300 (Some (page_num, page_num)) (poppler_path E)
           = Inr (img # others)"
    and "crop E img (x, y, x + w, y + h) = Inr cropped"
    and "convert_L E cropped = Inr gray"
    and "image_to_string E gray language zone_config = Inr t"
  shows "extract_text_from_zone E p page_num (x, y, w, h) language =
     ([Exists (normpath E p),
       Log DEBUG msg False,
       Convert (normpath E p) 300 (Some (page_num, page_num)) (poppler_path E),
       Crop img (x, y, x + w, y + h),
       Gray cropped,
       Ocr gray language zone_config,
       Log DEBUG (lit ''Zone-OCR Ergebnis: '' @ [39] @ take 50 (strip t) @ lit ''...'' @ [39]
         @ lit '' ('' @ str_nat (length (strip t)) @ lit '' Zeichen)'') False],
      Inr (strip t))"
  using assms
  by (simp add: extract_text_from_zone_def zone_try_body_def Let_def
      preprocess_image_for_ocr_def)

subsection \<open>Opens and sleeps of a whole run\<close>

lemma open_sleep_Nil [simp]: "open_sleep [] = []"
  by (simp add: open_sleep_def)

lemma open_sleep_append [simp]: "open_sleep (a @ b) = open_sleep a @ open_sleep b"
  by (simp add: open_sleep_def)

lemma open_sleep_Cons:
  "open_sleep (ev # tr) = (if is_open ev \<or> is_sleep ev then ev # open_sleep tr else open_sleep tr)"
  by (simp add: open_sleep_def)

lemma tempdir_open_sleep:
  "open_sleep (fst body) = [] \<Longrightarrow> open_sleep (fst (with_tempdir E body)) = []"
  using tempdir_trace [of E body] by (auto simp: open_sleep_Cons)

lemma pdf_open_sleep:
  "open_sleep (fst (extract_text_from_pdf E p language)) =
     (if path_exists E (normpath E p)
      then open_sleep (fst (lock_check E (normpath E p) [0, 1, 2])) else [])"
proof (cases "path_exists E (normpath E p)")
  case False
  then show ?thesis
    by (simp add: extract_text_from_pdf_def pdf_try_body_def Let_def open_sleep_def)
next
  case True
  show ?thesis
  proof (cases "readable_pdf E (normpath E p)")
    case False
    with True show ?thesis by (simp add: pdf_fail open_sleep_Cons)
  next
    case r: True
    have "open_sleep (fst (with_tempdir E (pdf_with_body E (normpath E p) language))) = []"
      by (rule tempdir_open_sleep) (rule body_open_sleep)
    with True r show ?thesis
      by (simp add: pdf_pass open_sleep_Cons split_beta split: sum.splits)
  qed
qed

lemma pdf_rejected:
  assumes "path_exists E (normpath E p)" and "\<not> readable_pdf E (normpath E p)"
  shows "snd (extract_text_from_pdf E p language) = Inr []"
    and "\<not> list_ex is_convert (fst (extract_text_from_pdf E p language))"
  using assms lock_trace_events [of E "normpath E p" "[0, 1, 2]"]
  by (simp_all add: pdf_fail)

lemma not_readable:
  "bad_signature E path 0 \<Longrightarrow> \<not> readable_pdf E path"
  "open_raises E path 0 \<Longrightarrow> bad_signature E path 1 \<Longrightarrow> \<not> readable_pdf E path"
  "open_raises E path 0 \<Longrightarrow> open_raises E path 1 \<Longrightarrow> bad_signature E path 2 \<Longrightarrow>
     \<not> readable_pdf E path"
  "open_raises E path 0 \<Longrightarrow> open_raises E path 1 \<Longrightarrow> open_raises E path 2 \<Longrightarrow>
     \<not> readable_pdf E path"
  using attempt_exclusive [of E path 0] attempt_exclusive [of E path 1]
    attempt_exclusive [of E path 2]
  by (auto simp: readable_pdf_def)

subsection \<open>The retry loop as seen from the caller\<close>

text \<open>
  Claim C2. The opens and sleeps of a run of \<open>extract_text_from_pdf\<close> are, in order, one
  of: none (the path does not exist), one open, two opens with a sleep of one second between
  them, three opens with a sleep of one second between consecutive ones; so the file is opened
  at most 3 times. When the path exists, an attempt that raises is followed by the next
  attempt as long as one is left. When the first attempt that does not raise finds a
  signature other than \<open>%PDF\<close>, no further attempt is made and the result is the empty
  string; when all three attempts raise, the result is the empty string. In both cases the
  rasterizer is not called.
\<close>

theorem retry_semantics:
  "(open_sleep (fst (extract_text_from_pdf E p language)) = []
    \<or> open_sleep (fst (extract_text_from_pdf E p language)) = [Open (normpath E p)]
    \<or> open_sleep (fst (extract_text_from_pdf E p language)) =
         [Open (normpath E p), Sleep 1, Open (normpath E p)]
    \<or> open_sleep (fst (extract_text_from_pdf E p language)) =
         [Open (normpath E p), Sleep 1, Open (normpath E p), Sleep 1, Open (normpath E p)])
   \<and> (path_exists E (normpath E p) \<longrightarrow>
        open_sleep (fst (extract_text_from_pdf E p language)) =
          (if open_raises E (normpath E p) 0
           then (if open_raises E (normpath E p) 1
                 then [Open (normpath E p), Sleep 1, Open (normpath E p), Sleep 1,
                       Open (normpath E p)]
                 else [Open (normpath E p), Sleep 1, Open (normpath E p)])
           else [Open (normpath E p)]))
   \<and> (path_exists E (normpath E p) \<and>
        (bad_signature E (normpath E p) 0
         \<or> open_raises E (normpath E p) 0 \<and> bad_signature E (normpath E p) 1
         \<or> open_raises E (normpath E p) 0 \<and> open_raises E (normpath E p) 1
             \<and> bad_signature E (normpath E p) 2
         \<or> open_raises E (normpath E p) 0 \<and> open_raises E (normpath E p) 1
             \<and> open_raises E (normpath E p) 2) \<longrightarrow>
        snd (extract_text_from_pdf E p language) = Inr []
        \<and> \<not> list_ex is_convert (fst (extract_text_from_pdf E p language)))"
proof (intro conjI impI)
  show "open_sleep (fst (extract_text_from_pdf E p language)) = []
    \<or> open_sleep (fst (extract_text_from_pdf E p language)) = [Open (normpath E p)]
    \<or> open_sleep (fst (extract_text_from_pdf E p language)) =
         [Open (normpath E p), Sleep 1, Open (normpath E p)]
    \<or> open_sleep (fst (extract_text_from_pdf E p language)) =
         [Open (normpath E p), Sleep 1, Open (normpath E p), Sleep 1, Open (normpath E p)]"
    using lock_012_opens [of E "normpath E p"] by (simp add: pdf_open_sleep)
next
  assume "path_exists E (normpath E p)"
  then show "open_sleep (fst (extract_text_from_pdf E p language)) =
          (if open_raises E (normpath E p) 0
           then (if open_raises E (normpath E p) 1
                 then [Open (normpath E p), Sleep 1, Open (normpath E p), Sleep 1,
                       Open (normpath E p)]
                 else [Open (normpath E p), Sleep 1, Open (normpath E p)])
           else [Open (normpath E p)])"
    using lock_012_opens [of E "normpath E p"] by (simp add: pdf_open_sleep)
next
  assume a: "path_exists E (normpath E p) \<and>
        (bad_signature E (normpath E p) 0
         \<or> open_raises E (normpath E p) 0 \<and> bad_signature E (normpath E p) 1
         \<or> open_raises E (normpath E p) 0 \<and> open_raises E (normpath E p) 1
             \<and> bad_signature E (normpath E p) 2
         \<or> open_raises E (normpath E p) 0 \<and> open_raises E (normpath E p) 1
             \<and> open_raises E (normpath E p) 2)"
  then have "\<not> readable_pdf E (normpath E p)"
    using not_readable [of E "normpath E p"] by blast
  with a show "snd (extract_text_from_pdf E p language) = Inr []"
    and "\<not> list_ex is_convert (fst (extract_text_from_pdf E p language))"
    by (simp_all add: pdf_rejected)
qed

theorem retry_semantics_witness:
  "path_exists env_late_zip (normpath env_late_zip a_pdf)
   \<and> open_raises env_late_zip (normpath env_late_zip a_pdf) 0
   \<and> bad_signature env_late_zip (normpath env_late_zip a_pdf) 1
   \<and> open_sleep (fst (extract_text_from_pdf env_late_zip a_pdf deu)) =
       [Open a_pdf, Sleep 1, Open a_pdf]
   \<and> snd (extract_text_from_pdf env_late_zip a_pdf deu) = Inr []
   \<and> path_exists env_locked (normpath env_locked a_pdf)
   \<and> open_raises env_locked (normpath env_locked a_pdf) 0
   \<and> open_raises env_locked (normpath env_locked a_pdf) 1
   \<and> open_raises env_locked (normpath env_locked a_pdf) 2
   \<and> open_sleep (fst (extract_text_from_pdf env_locked a_pdf deu)) =
       [Open a_pdf, Sleep 1, Open a_pdf, Sleep 1, Open a_pdf]
   \<and> snd (extract_text_from_pdf env_locked a_pdf deu) = Inr []"
proof -
  have late: "path_exists env_late_zip (normpath env_late_zip a_pdf)"
    "open_raises env_late_zip (normpath env_late_zip a_pdf) 0"
    "bad_signature env_late_zip (normpath env_late_zip a_pdf) 1"
    "\<not> open_raises env_late_zip (normpath env_late_zip a_pdf) 1"
    "normpath env_late_zip a_pdf = a_pdf"
    by (simp_all add: env_late_zip_def test_env_def late_zip_file_def open_raises_def
        bad_signature_def read_def pdf_magic_def)
  have locked: "path_exists env_locked (normpath env_locked a_pdf)"
    "open_raises env_locked (normpath env_locked a_pdf) 0"
    "open_raises env_locked (normpath env_locked a_pdf) 1"
    "open_raises env_locked (normpath env_locked a_pdf) 2"
    "normpath env_locked a_pdf = a_pdf"
    by (simp_all add: env_locked_def test_env_def locked_file_def open_raises_def)
  show ?thesis
    using retry_semantics [of env_late_zip a_pdf deu] retry_semantics [of env_locked a_pdf deu]
      late locked
    by simp
qed

subsection \<open>The run on a valid document\<close>

lemma pdf_success_run:
  assumes ex: "path_exists E (normpath E p)"
    and rd: "readable_pdf E (normpath E p)"
    and pp: "path_exists E (poppler_path E)"
    and mk: "mkdtemp E = None"
    and rm: "rmtemp E = None"
    and cv: "convert_from_path E (normpath E p) 300 None (poppler_path E) = Inr images"
    and pages: "ocr_pages E language (length images) (enumerate 0 images) [] = (tr, Inr all_text)"
  shows "extract_text_from_pdf E p language =
     (Exists (normpath E p) # fst (lock_check E (normpath E p) [0, 1, 2])
      @ [Log DEBUG (lit ''Starte OCR f'' @ [252] @ lit ''r: '' @ normpath E p) False,
         MkTemp, Exists (poppler_path E), Convert (normpath E p) 300 None (poppler_path E)]
      @ tr
      @ [Log INFO (lit ''OCR abgeschlossen f'' @ [252] @ lit ''r '' @ basename E (normpath E p)
           @ lit '': '' @ str_nat (length (join [10, 10] all_text))
           @ lit '' Zeichen extrahiert'') False,
         RmTemp],
      Inr (join [10, 10] all_text))"
  by (simp add: pdf_pass [OF ex rd] with_tempdir_def mk rm body_converted [OF pp cv] pages)

lemma pdf_success_no_error:
  assumes ex: "path_exists E (normpath E p)"
    and rd: "readable_pdf E (normpath E p)"
    and pp: "path_exists E (poppler_path E)"
    and mk: "mkdtemp E = None"
    and rm: "rmtemp E = None"
    and cv: "convert_from_path E (normpath E p) 300 None (poppler_path E) = Inr images"
    and pages: "ocr_pages E language (length images) (enumerate 0 images) [] = (tr, Inr all_text)"
  shows "\<not> list_ex is_error_log (fst (extract_text_from_pdf E p language))"
proof -
  have "snd (lock_check E (normpath E p) [0, 1, 2]) = None"
    using rd lock_012_result [of E "normpath E p"] by simp
  then have l: "\<not> list_ex is_error_log (fst (lock_check E (normpath E p) [0, 1, 2]))"
    by (rule lock_pass_no_error)
  have "list_all quiet tr"
    using ocr_pages_quiet [of E language "length images" "enumerate 0 images" "[]"] pages by simp
  then have t: "\<not> list_ex is_error_log tr"
    by (rule quiet_trace)
  show ?thesis
    using l t by (simp add: pdf_success_run [OF assms])
qed

text \<open>
  Claim C9. When the file exists and is readable as a PDF, the poppler directory exists, the
  temporary directory is entered and left without an exception and the rasterizer returns
  no page image, \<open>extract_text_from_pdf\<close> takes its success path: no page is processed,
  the joined text of the empty block list is the empty string, the record
  \<open>OCR abgeschlossen ... 0 Zeichen extrahiert\<close> is logged at level INFO, no record of level
  ERROR is logged, and the result is the empty string, the value that every failure gives.
\<close>

theorem zero_pages_success:
  assumes "path_exists E (normpath E p)"
    and "readable_pdf E (normpath E p)"
    and "path_exists E (poppler_path E)"
    and "mkdtemp E = None"
    and "rmtemp E = None"
    and "convert_from_path E (normpath E p) 300 None (poppler_path E) = Inr []"
  shows "extract_text_from_pdf E p language =
     (Exists (normpath E p) # fst (lock_check E (normpath E p) [0, 1, 2])
      @ [Log DEBUG (lit ''Starte OCR f'' @ [252] @ lit ''r: '' @ normpath E p) False,
         MkTemp, Exists (poppler_path E), Convert (normpath E p) 300 None (poppler_path E),
         Log INFO (lit ''OCR abgeschlossen f'' @ [252] @ lit ''r '' @ basename E (normpath E p)
           @ lit '': 0 Zeichen extrahiert'') False,
         RmTemp],
      Inr (join [10, 10] []))
   \<and> join [10, 10] [] = []
   \<and> \<not> list_ex is_error_log (fst (extract_text_from_pdf E p language))"
proof -
  have pages: "ocr_pages E language (length ([] :: 'a list)) (enumerate 0 []) [] = ([], Inr [])"
    by simp
  have run: "extract_text_from_pdf E p language =
     (Exists (normpath E p) # fst (lock_check E (normpath E p) [0, 1, 2])
      @ [Log DEBUG (lit ''Starte OCR f'' @ [252] @ lit ''r: '' @ normpath E p) False,
         MkTemp, Exists (poppler_path E), Convert (normpath E p) 300 None (poppler_path E),
         Log INFO (lit ''OCR abgeschlossen f'' @ [252] @ lit ''r '' @ basename E (normpath E p)
           @ lit '': 0 Zeichen extrahiert'') False,
         RmTemp],
      Inr (join [10, 10] []))"
    using pdf_success_run [OF assms pages] by (simp add: str_nat.simps lit_def)
  have noerr: "\<not> list_ex is_error_log (fst (extract_text_from_pdf E p language))"
    using pdf_success_no_error [OF assms pages] .
  show ?thesis
    using run noerr by simp
qed

text \<open>Paths and files of the concrete environments.\<close>

lemma test_env_paths:
  "normpath (test_env ex op imgs ocr) q = q"
  "poppler_path (test_env ex op imgs ocr) = bin_dir"
  "path_exists (test_env ex op imgs ocr) q = (q \<in> set ex)"
  by (simp_all add: test_env_def poppler_path_def bin_dir_def lit_def)

lemma pdf_file_readable: "readable_pdf (test_env ex pdf_file imgs ocr) q"
  by (simp add: readable_pdf_def opens_as_pdf_def test_env_def pdf_file_def read_def pdf_magic_def)

theorem zero_pages_success_witness:
  "path_exists env_zero_pages (normpath env_zero_pages a_pdf)
   \<and> readable_pdf env_zero_pages (normpath env_zero_pages a_pdf)
   \<and> path_exists env_zero_pages (poppler_path env_zero_pages)
   \<and> mkdtemp env_zero_pages = None
   \<and> rmtemp env_zero_pages = None
   \<and> convert_from_path env_zero_pages (normpath env_zero_pages a_pdf) 300 None
        (poppler_path env_zero_pages) = Inr []
   \<and> snd (extract_text_from_pdf env_zero_pages a_pdf deu) = Inr []
   \<and> \<not> list_ex is_error_log (fst (extract_text_from_pdf env_zero_pages a_pdf deu))"
proof -
  have h: "path_exists env_zero_pages (normpath env_zero_pages a_pdf)"
    "readable_pdf env_zero_pages (normpath env_zero_pages a_pdf)"
    "path_exists env_zero_pages (poppler_path env_zero_pages)"
    "mkdtemp env_zero_pages = None"
    "rmtemp env_zero_pages = None"
    "convert_from_path env_zero_pages (normpath env_zero_pages a_pdf) 300 None
        (poppler_path env_zero_pages) = Inr []"
    unfolding env_zero_pages_def
    by (simp_all add: test_env_paths pdf_file_readable) (simp_all add: test_env_def)
  note run = zero_pages_success [OF h, of deu]
  have "snd (extract_text_from_pdf env_zero_pages a_pdf deu) = Inr []"
    using run by simp
  moreover have "\<not> list_ex is_error_log (fst (extract_text_from_pdf env_zero_pages a_pdf deu))"
    using run by blast
  ultimately show ?thesis
    using h by simp
qed

lemma enumerate_blocks:
  "length images = length texts \<Longrightarrow>
   map (\<lambda>((i, img), t). page_header i @ t) (zip (enumerate k images) texts) =
   map (\<lambda>(i, t). page_header i @ t) (enumerate k texts)"
proof (induction images arbitrary: k texts)
  case Nil
  then show ?case by simp
next
  case (Cons img images)
  then obtain t ts where "texts = t # ts" and "length images = length ts"
    by (cases texts) auto
  with Cons.IH [of ts "Suc k"] show ?case by simp
qed

text \<open>
  Claim C4. On a valid document (the file exists and is readable as a PDF, the poppler
  directory exists, the temporary directory is entered and left without an exception, the
  rasterizer returns the page images) whose pages the OCR engine reads as
  \<open>t\<^sub>1, \<dots>, t\<^sub>N\<close>, the result of \<open>extract_text_from_pdf\<close> is the blocks
  \<open>"--- Seite i ---\n" + t\<^sub>i\<close> for \<open>i = 1, \<dots>, N\<close>, joined by \<open>"\n\n"\<close>; for two
  pages it is \<open>"--- Seite 1 ---\n" + t\<^sub>1 + "\n\n--- Seite 2 ---\n" + t\<^sub>2\<close>.
\<close>

theorem page_blocks_joined:
  assumes "path_exists E (normpath E p)"
    and "readable_pdf E (normpath E p)"
    and "path_exists E (poppler_path E)"
    and "mkdtemp E = None"
    and "rmtemp E = None"
    and "convert_from_path E (normpath E p) 300 None (poppler_path E) = Inr images"
    and "list_all2 (ocr_reads E language) images texts"
  shows "snd (extract_text_from_pdf E p language) =
           Inr (join [10, 10]
                 (map (\<lambda>(i, t). lit ''--- Seite '' @ str_nat (i + 1) @ lit '' ---'' @ [10] @ t)
                    (enumerate 0 texts)))
       \<and> (texts = [t1, t2] \<longrightarrow>
            snd (extract_text_from_pdf E p language) =
              Inr (lit ''--- Seite 1 ---'' @ [10] @ t1 @ [10, 10]
                   @ lit ''--- Seite 2 ---'' @ [10] @ t2))"
proof -
  let ?blocks = "map (\<lambda>(i, t). page_header i @ t) (enumerate 0 texts)"
  have len: "length images = length texts"
    using assms(7) by (rule list_all2_lengthD)
  have "list_all2 (ocr_reads E language) (map snd (enumerate 0 images)) texts"
    using assms(7) by simp
  then have "snd (ocr_pages E language (length images) (enumerate 0 images) []) = Inr ?blocks"
    by (simp add: ocr_pages_success enumerate_blocks [OF len])
  then have "ocr_pages E language (length images) (enumerate 0 images) [] =
      (fst (ocr_pages E language (length images) (enumerate 0 images) []), Inr ?blocks)"
    by (metis prod.collapse)
  from pdf_success_run [OF assms(1-6) this]
  have res: "snd (extract_text_from_pdf E p language) = Inr (join [10, 10] ?blocks)"
    by simp
  have hdr: "\<And>i t. page_header i @ t = lit ''--- Seite '' @ str_nat (i + 1) @ lit '' ---'' @ [10] @ t"
    by (simp add: page_header_def)
  have two: "texts = [t1, t2] \<Longrightarrow> join [10, 10] ?blocks =
      lit ''--- Seite 1 ---'' @ [10] @ t1 @ [10, 10] @ lit ''--- Seite 2 ---'' @ [10] @ t2"
    by (simp add: page_header_def str_nat.simps lit_def)
  show ?thesis
    using res two by (simp add: hdr)
qed

theorem page_blocks_joined_witness:
  "path_exists env_two_pages (normpath env_two_pages a_pdf)
   \<and> readable_pdf env_two_pages (normpath env_two_pages a_pdf)
   \<and> path_exists env_two_pages (poppler_path env_two_pages)
   \<and> mkdtemp env_two_pages = None
   \<and> rmtemp env_two_pages = None
   \<and> convert_from_path env_two_pages (normpath env_two_pages a_pdf) 300 None
        (poppler_path env_two_pages) = Inr [1, 2]
   \<and> list_all2 (ocr_reads env_two_pages deu) [1, 2] [lit ''INVOICE'' @ [10], lit ''RECEIPT'' @ [10]]
   \<and> snd (extract_text_from_pdf env_two_pages a_pdf deu) =
       Inr (lit ''--- Seite 1 ---'' @ [10] @ lit ''INVOICE'' @ [10] @ [10, 10]
            @ lit ''--- Seite 2 ---'' @ [10] @ lit ''RECEIPT'' @ [10])"
proof -
  have h: "path_exists env_two_pages (normpath env_two_pages a_pdf)"
    "readable_pdf env_two_pages (normpath env_two_pages a_pdf)"
    "path_exists env_two_pages (poppler_path env_two_pages)"
    "mkdtemp env_two_pages = None"
    "rmtemp env_two_pages = None"
    "convert_from_path env_two_pages (normpath env_two_pages a_pdf) 300 None
        (poppler_path env_two_pages) = Inr [1, 2]"
    unfolding env_two_pages_def
    by (simp_all add: test_env_paths pdf_file_readable) (simp_all add: test_env_def)
  have o: "list_all2 (ocr_reads env_two_pages deu) [1, 2]
             [lit ''INVOICE'' @ [10], lit ''RECEIPT'' @ [10]]"
    by (simp add: env_two_pages_def test_env_def ocr_reads_def invoice_receipt_def)
  have "snd (extract_text_from_pdf env_two_pages a_pdf deu) =
       Inr (lit ''--- Seite 1 ---'' @ [10] @ lit ''INVOICE'' @ [10] @ [10, 10]
            @ lit ''--- Seite 2 ---'' @ [10] @ lit ''RECEIPT'' @ [10])"
    using page_blocks_joined [OF h o, of "lit ''INVOICE'' @ [10]" "lit ''RECEIPT'' @ [10]",
        THEN conjunct2, THEN mp, OF refl]
    by simp
  then show ?thesis
    using h o by simp
qed

subsection \<open>The poppler directory\<close>

lemma pdf_without_poppler:
  assumes np: "\<not> path_exists E (poppler_path E)"
  shows "snd (extract_text_from_pdf E p language) = Inr []"
    and "\<not> list_ex is_convert (fst (extract_text_from_pdf E p language))"
proof -
  have lk: "\<not> list_ex is_convert (fst (lock_check E (normpath E p) [0, 1, 2]))"
    using lock_trace_events [of E "normpath E p" "[0, 1, 2]"] by simp
  have both: "snd (extract_text_from_pdf E p language) = Inr []
      \<and> \<not> list_ex is_convert (fst (extract_text_from_pdf E p language))"
  proof (cases "path_exists E (normpath E p)")
    case False
    then show ?thesis
      by (simp add: extract_text_from_pdf_def pdf_try_body_def Let_def)
  next
    case True
    show ?thesis
    proof (cases "readable_pdf E (normpath E p)")
      case False
      with True show ?thesis by (simp add: pdf_rejected)
    next
      case r: True
      show ?thesis
        using lk
        by (simp add: pdf_pass [OF True r] with_tempdir_def body_missing_poppler [OF np]
            split: option.splits)
    qed
  qed
  then show "snd (extract_text_from_pdf E p language) = Inr []"
    and "\<not> list_ex is_convert (fst (extract_text_from_pdf E p language))"
    by simp_all
qed

lemma pdf_poppler_error_logged:
  assumes "\<not> path_exists E (poppler_path E)"
    and "path_exists E (normpath E p)" and "readable_pdf E (normpath E p)" and "mkdtemp E = None"
  shows "Log ERROR (lit ''Poppler nicht gefunden in: '' @ poppler_path E) False
           \<in> set (fst (extract_text_from_pdf E p language))"
  using assms(4)
  by (simp add: pdf_pass [OF assms(2,3)] with_tempdir_def body_missing_poppler [OF assms(1)]
      split: option.splits)

lemma zone_independent_of_poppler_dir:
  assumes "poppler_path E \<noteq> normpath E p"
  shows "extract_text_from_zone (E\<lparr>path_exists := (path_exists E)(poppler_path E := b)\<rparr>)
           p page_num zone language =
         extract_text_from_zone E p page_num zone language"
  using assms
  by (simp add: extract_text_from_zone_def zone_try_body_def poppler_path_def Let_def
      zone_debug_record_def preprocess_image_for_ocr_def
      split: sum.splits list.splits prod.splits)

lemma zone_calls_rasterizer:
  assumes "path_exists E (normpath E p)"
    and "zone_debug_record E (normpath E p) page_num zone = Inr msg"
  shows "Convert (normpath E p) 300 (Some (page_num, page_num)) (poppler_path E)
           \<in> set (fst (extract_text_from_zone E p page_num zone language))"
    and "take 3 (fst (extract_text_from_zone E p page_num zone language)) =
           [Exists (normpath E p), Log DEBUG msg False,
            Convert (normpath E p) 300 (Some (page_num, page_num)) (poppler_path E)]"
    and "length (filter is_convert (fst (extract_text_from_zone E p page_num zone language))) = 1"
proof -
  from zone_trace_prefix [OF assms, of language]
  obtain rest where tr: "fst (extract_text_from_zone E p page_num zone language) =
           [Exists (normpath E p), Log DEBUG msg False,
            Convert (normpath E p) 300 (Some (page_num, page_num)) (poppler_path E)] @ rest"
    and rest: "\<not> list_ex is_convert rest"
    by blast
  have nc: "filter is_convert rest = []"
    using rest by (simp add: filter_empty_conv list_ex_iff)
  show "Convert (normpath E p) 300 (Some (page_num, page_num)) (poppler_path E)
           \<in> set (fst (extract_text_from_zone E p page_num zone language))"
    by (simp add: tr)
  show "take 3 (fst (extract_text_from_zone E p page_num zone language)) =
           [Exists (normpath E p), Log DEBUG msg False,
            Convert (normpath E p) 300 (Some (page_num, page_num)) (poppler_path E)]"
    by (simp add: tr)
  show "length (filter is_convert (fst (extract_text_from_zone E p page_num zone language))) = 1"
    using nc by (simp add: tr)
qed

text \<open>
  Claim C7. When the directory \<open>../poppler/bin\<close> beside the module does not exist,
  \<open>extract_text_from_pdf\<close> returns the empty string and never calls the rasterizer; when
  the run gets as far as the check (the file exists and is readable as a PDF, the temporary
  directory is entered), the record \<open>Poppler nicht gefunden in: ...\<close> is logged.
  \<open>extract_text_from_zone\<close> makes no such check: the only existence check of any of its
  runs is that of the file, its run is the same whether the directory exists or not, and
  when the file exists and the debug record of line 129 has been written, the next thing the
  run does is to call the rasterizer with that directory.
\<close>

theorem poppler_directory_check:
  "(\<not> path_exists E (poppler_path E) \<longrightarrow>
      snd (extract_text_from_pdf E p language) = Inr []
      \<and> \<not> list_ex is_convert (fst (extract_text_from_pdf E p language)))
   \<and> (\<not> path_exists E (poppler_path E) \<and> path_exists E (normpath E p)
       \<and> readable_pdf E (normpath E p) \<and> mkdtemp E = None \<longrightarrow>
      Log ERROR (lit ''Poppler nicht gefunden in: '' @ poppler_path E) False
        \<in> set (fst (extract_text_from_pdf E p language)))
   \<and> filter is_exists (fst (extract_text_from_zone E p page_num zone language)) =
        [Exists (normpath E p)]
   \<and> (poppler_path E \<noteq> normpath E p \<longrightarrow>
        extract_text_from_zone (E\<lparr>path_exists := (path_exists E)(poppler_path E := b)\<rparr>)
          p page_num zone language =
        extract_text_from_zone E p page_num zone language)
   \<and> (path_exists E (normpath E p)
       \<and> zone_debug_record E (normpath E p) page_num zone = Inr msg \<longrightarrow>
        take 3 (fst (extract_text_from_zone E p page_num zone language)) =
          [Exists (normpath E p), Log DEBUG msg False,
           Convert (normpath E p) 300 (Some (page_num, page_num)) (poppler_path E)])"
  using pdf_without_poppler [of E p language] pdf_poppler_error_logged [of E p language]
    zone_trace_io(3) [of E p page_num zone language]
    zone_independent_of_poppler_dir [of E p b page_num zone language]
    zone_calls_rasterizer(2) [of E p page_num zone msg language]
  by blast

text \<open>Zone extraction in the concrete environments, for page 1 and the zone (0, 0, 200, 50).\<close>

lemma test_env_record:
  "zone_debug_record (test_env ex op imgs ocr) a_pdf 1 (0, 0, 200, 50) = Inr zone_record_1"
  by (simp add: zone_debug_record_def repr_zone_def str_int_def Let_def test_env_def
      str_nat.simps zone_record_1_def a_pdf_def lit_def)

lemma test_env_zone:
  assumes "a_pdf \<in> set ex"
  shows "extract_text_from_zone (test_env ex op (img # imgs) ocr) a_pdf 1 (0, 0, 200, 50) language =
     ([Exists a_pdf,
       Log DEBUG zone_record_1 False,
       Convert a_pdf 300 (Some (1, 1)) bin_dir,
       Crop img (0, 0, 200, 50),
       Gray img,
       Ocr img language zone_config,
       Log DEBUG (lit ''Zone-OCR Ergebnis: '' @ [39] @ take 50 (strip (ocr img)) @ lit ''...''
         @ [39] @ lit '' ('' @ str_nat (length (strip (ocr img))) @ lit '' Zeichen)'') False],
      Inr (strip (ocr img)))"
proof -
  let ?E = "test_env ex op (img # imgs) ocr"
  have ex: "path_exists ?E (normpath ?E a_pdf)"
    using assms by (simp add: test_env_paths)
  have rec: "zone_debug_record ?E (normpath ?E a_pdf) 1 (0, 0, 200, 50) = Inr zone_record_1"
    by (simp add: test_env_paths test_env_record)
  have cv: "convert_from_path ?E (normpath ?E a_pdf) 300 (Some (1, 1)) (poppler_path ?E)
      = Inr (img # imgs)"
    and cr: "crop ?E img (0, 0, 0 + 200, 0 + 50) = Inr img"
    and gr: "convert_L ?E img = Inr img"
    and oc: "image_to_string ?E img language zone_config = Inr (ocr img)"
    by (simp_all add: test_env_def)
  from zone_success [OF ex rec cv cr gr oc] show ?thesis
    by (simp add: test_env_paths)
qed

lemma strip_invoice_no: "strip (invoice_no img) = lit ''Invoice #123''"
  by (simp add: invoice_no_def strip_def lit_def py_isspace_def)

theorem poppler_directory_check_witness:
  "\<not> path_exists env_no_poppler (poppler_path env_no_poppler)
   \<and> path_exists env_no_poppler (normpath env_no_poppler a_pdf)
   \<and> readable_pdf env_no_poppler (normpath env_no_poppler a_pdf)
   \<and> mkdtemp env_no_poppler = None
   \<and> zone_debug_record env_no_poppler (normpath env_no_poppler a_pdf) 1 (0, 0, 200, 50) =
        Inr zone_record_1
   \<and> snd (extract_text_from_pdf env_no_poppler a_pdf deu) = Inr []
   \<and> \<not> list_ex is_convert (fst (extract_text_from_pdf env_no_poppler a_pdf deu))
   \<and> Log ERROR (lit ''Poppler nicht gefunden in: '' @ bin_dir) False
        \<in> set (fst (extract_text_from_pdf env_no_poppler a_pdf deu))
   \<and> take 3 (fst (extract_text_from_zone env_no_poppler a_pdf 1 (0, 0, 200, 50) deu)) =
        [Exists a_pdf, Log DEBUG zone_record_1 False, Convert a_pdf 300 (Some (1, 1)) bin_dir]
   \<and> filter is_exists (fst (extract_text_from_zone env_no_poppler a_pdf 1 (0, 0, 200, 50) deu)) =
        [Exists a_pdf]
   \<and> snd (extract_text_from_zone env_no_poppler a_pdf 1 (0, 0, 200, 50) deu) =
        Inr (lit ''Invoice #123'')"
proof -
  have h: "\<not> path_exists env_no_poppler (poppler_path env_no_poppler)"
    "path_exists env_no_poppler (normpath env_no_poppler a_pdf)"
    "readable_pdf env_no_poppler (normpath env_no_poppler a_pdf)"
    "mkdtemp env_no_poppler = None"
    unfolding env_no_poppler_def
    by (simp_all add: test_env_paths pdf_file_readable)
      (simp_all add: test_env_def a_pdf_def bin_dir_def lit_def)
  have p: "poppler_path env_no_poppler = bin_dir" "normpath env_no_poppler a_pdf = a_pdf"
    by (simp_all add: env_no_poppler_def test_env_paths)
  have r: "zone_debug_record env_no_poppler (normpath env_no_poppler a_pdf) 1 (0, 0, 200, 50) =
        Inr zone_record_1"
    by (simp add: p) (simp add: env_no_poppler_def test_env_record)
  have z: "snd (extract_text_from_zone env_no_poppler a_pdf 1 (0, 0, 200, 50) deu) =
        Inr (lit ''Invoice #123'')"
    unfolding env_no_poppler_def
    by (simp add: test_env_zone strip_invoice_no)
  show ?thesis
    using poppler_directory_check [where E = env_no_poppler and p = a_pdf and language = deu
        and page_num = 1 and zone = "(0, 0, 200, 50)" and msg = zone_record_1] h r z
    by (simp add: p)
qed

subsection \<open>What zone extraction validates\<close>



subsection \<open>Cropping and trimming\<close>






subsection \<open>Totality and the value of a failed run\<close>

lemma pdf_total: "\<exists>s. snd (extract_text_from_pdf E p language) = Inr s"
  by (auto simp: extract_text_from_pdf_def split: sum.splits prod.splits)

lemma pdf_error_empty:
  assumes err: "list_ex is_error_log (fst (extract_text_from_pdf E p language))"
  shows "snd (extract_text_from_pdf E p language) = Inr []"
proof (cases "path_exists E (normpath E p)")
  case False
  then show ?thesis
    by (simp add: extract_text_from_pdf_def pdf_try_body_def Let_def)
next
  case True
  show ?thesis
  proof (cases "readable_pdf E (normpath E p)")
    case False
    with True show ?thesis by (simp add: pdf_rejected)
  next
    case r: True
    let ?tb = "with_tempdir E (pdf_with_body E (normpath E p) language)"
    show ?thesis
    proof (cases "snd ?tb")
      case (Inl e)
      then show ?thesis
        by (simp add: pdf_pass [OF True r] split_beta)
    next
      case (Inr s)
      have "snd (lock_check E (normpath E p) [0, 1, 2]) = None"
        using r lock_012_result [of E "normpath E p"] by simp
      then have l: "\<not> list_ex is_error_log (fst (lock_check E (normpath E p) [0, 1, 2]))"
        by (rule lock_pass_no_error)
      note t = tempdir_returns [OF Inr]
      from err l have "list_ex is_error_log (fst (pdf_with_body E (normpath E p) language))"
        by (simp add: pdf_pass [OF True r] split_beta Inr t(4))
      with body_returns_clean [OF t(3)] have "s = []" by blast
      then show ?thesis
        by (simp add: pdf_pass [OF True r] split_beta Inr)
    qed
  qed
qed

lemma ocr_pages_returns:
  "snd (ocr_pages E language n ixs acc) = Inr all_text \<Longrightarrow>
   \<exists>texts. list_all2 (ocr_reads E language) (map snd ixs) texts
     \<and> all_text = acc @ map (\<lambda>((i, img), t). page_header i @ t) (zip ixs texts)"
proof (induction ixs arbitrary: acc)
  case Nil
  then show ?case by simp
next
  case (Cons a ixs)
  obtain i img where a: "a = (i, img)" by (cases a)
  from Cons.prems obtain g t where g: "convert_L E img = Inr g"
    and t: "image_to_string E g language [] = Inr t"
    and rest: "snd (ocr_pages E language n ixs (acc @ [page_header i @ t])) = Inr all_text"
    by (auto simp: a preprocess_image_for_ocr_def split_beta Let_def split: sum.splits)
  from Cons.IH [OF rest] obtain ts where
    ts: "list_all2 (ocr_reads E language) (map snd ixs) ts"
    and al: "all_text = (acc @ [page_header i @ t])
              @ map (\<lambda>((i, img), t). page_header i @ t) (zip ixs ts)"
    by blast
  have "ocr_reads E language img t"
    using g t by (simp add: ocr_reads_def)
  with ts al show ?case
    by (intro exI [of _ "t # ts"]) (simp add: a)
qed

lemma pdf_nonempty_success:
  assumes res: "snd (extract_text_from_pdf E p language) = Inr s" and ne: "s \<noteq> []"
  shows "path_exists E (normpath E p) \<and> readable_pdf E (normpath E p)
       \<and> path_exists E (poppler_path E) \<and> mkdtemp E = None \<and> rmtemp E = None
       \<and> (\<exists>images texts.
             convert_from_path E (normpath E p) 300 None (poppler_path E) = Inr images
           \<and> list_all2 (ocr_reads E language) images texts
           \<and> s = join [10, 10] (map (\<lambda>(i, t). page_header i @ t) (enumerate 0 texts)))"
proof -
  have ex: "path_exists E (normpath E p)"
  proof (rule ccontr)
    assume "\<not> path_exists E (normpath E p)"
    then have "snd (extract_text_from_pdf E p language) = Inr []"
      by (simp add: extract_text_from_pdf_def pdf_try_body_def Let_def)
    with res ne show False by simp
  qed
  have rd: "readable_pdf E (normpath E p)"
    using res ne pdf_rejected(1) [OF ex, of language] by auto
  let ?body = "pdf_with_body E (normpath E p) language"
  have tb: "snd (with_tempdir E ?body) = Inr s"
    using res ne by (auto simp: pdf_pass [OF ex rd] split_beta split: sum.splits)
  note t = tempdir_returns [OF tb]
  have pp: "path_exists E (poppler_path E)"
  proof (rule ccontr)
    assume "\<not> path_exists E (poppler_path E)"
    then have "snd (pdf_with_body E (normpath E p) language) = Inr []"
      by (simp add: body_missing_poppler)
    with t(3) ne show False by simp
  qed
  obtain images where cv: "convert_from_path E (normpath E p) 300 None (poppler_path E) = Inr images"
    using t(3) pp by (cases "convert_from_path E (normpath E p) 300 None (poppler_path E)")
      (auto simp: body_convert_raises)
  from t(3) obtain all_text where
    pg: "snd (ocr_pages E language (length images) (enumerate 0 images) []) = Inr all_text"
    and s: "s = join [10, 10] all_text"
    by (auto simp: body_converted [OF pp cv] split_beta split: sum.splits)
  from ocr_pages_returns [OF pg] obtain texts where
    tx: "list_all2 (ocr_reads E language) images texts"
    and al: "all_text = map (\<lambda>((i, img), t). page_header i @ t) (zip (enumerate 0 images) texts)"
    by auto
  have "length images = length texts"
    using tx by (rule list_all2_lengthD)
  then have "all_text = map (\<lambda>(i, t). page_header i @ t) (enumerate 0 texts)"
    using al by (simp add: enumerate_blocks)
  with ex rd pp t(1,2) cv tx s show ?thesis by blast
qed

lemma zone_nonempty_success:
  assumes "snd (extract_text_from_zone E p page_num (x, y, w, h) language) = Inr s" and "s \<noteq> []"
  shows "path_exists E (normpath E p)
       \<and> \<not> isl (zone_debug_record E (normpath E p) page_num (x, y, w, h))
       \<and> (\<exists>img others cropped gray t.
             convert_from_path E (normpath E p) 300 (Some (page_num, page_num)) (poppler_path E)
               = Inr (img # others)
           \<and> crop E img (x, y, x + w, y + h) = Inr cropped
           \<and> convert_L E cropped = Inr gray
           \<and> image_to_string E gray language zone_config = Inr t
           \<and> s = strip t)"
  using assms
  by (auto simp: extract_text_from_zone_def zone_try_body_def Let_def
      preprocess_image_for_ocr_def split: sum.splits list.splits if_splits)

lemma pdf_success_result:
  assumes "path_exists E (normpath E p)"
    and "readable_pdf E (normpath E p)"
    and "path_exists E (poppler_path E)"
    and "mkdtemp E = None"
    and "rmtemp E = None"
    and "convert_from_path E (normpath E p) 300 None (poppler_path E) = Inr images"
    and "list_all2 (ocr_reads E language) images texts"
  shows "snd (extract_text_from_pdf E p language) =
           Inr (join [10, 10] (map (\<lambda>(i, t). page_header i @ t) (enumerate 0 texts)))"
proof -
  let ?blocks = "map (\<lambda>(i, t). page_header i @ t) (enumerate 0 texts)"
  have len: "length images = length texts"
    using assms(7) by (rule list_all2_lengthD)
  have "list_all2 (ocr_reads E language) (map snd (enumerate 0 images)) texts"
    using assms(7) by simp
  then have "snd (ocr_pages E language (length images) (enumerate 0 images) []) = Inr ?blocks"
    by (simp add: ocr_pages_success enumerate_blocks [OF len])
  then have "ocr_pages E language (length images) (enumerate 0 images) [] =
      (fst (ocr_pages E language (length images) (enumerate 0 images) []), Inr ?blocks)"
    by (metis prod.collapse)
  from pdf_success_run [OF assms(1-6) this] show ?thesis
    by simp
qed

lemma two_pages_result:
  "snd (extract_text_from_pdf env_two_pages a_pdf deu) = Inr two_pages_text"
proof -
  have h: "path_exists env_two_pages (normpath env_two_pages a_pdf)"
    "readable_pdf env_two_pages (normpath env_two_pages a_pdf)"
    "path_exists env_two_pages (poppler_path env_two_pages)"
    "mkdtemp env_two_pages = None"
    "rmtemp env_two_pages = None"
    "convert_from_path env_two_pages (normpath env_two_pages a_pdf) 300 None
        (poppler_path env_two_pages) = Inr [1, 2]"
    unfolding env_two_pages_def
    by (simp_all add: test_env_paths pdf_file_readable) (simp_all add: test_env_def)
  have o: "list_all2 (ocr_reads env_two_pages deu) [1, 2]
             [lit ''INVOICE'' @ [10], lit ''RECEIPT'' @ [10]]"
    by (simp add: env_two_pages_def test_env_def ocr_reads_def invoice_receipt_def)
  show ?thesis
    using pdf_success_result [OF h o]
    by (simp add: two_pages_text_def page_header_def str_nat.simps lit_def)
qed

text \<open>
  What holds of the two methods: \<open>extract_text_from_pdf\<close> always returns a string
  (\<open>pdf_total\<close>), the empty one when an error record was logged (\<open>pdf_error_empty\<close>);
  \<open>extract_text_from_zone\<close> returns a string whenever the page number can be converted to
  a string (\<open>zone_total_if_page_formats\<close>), the empty one when an error or a warning record
  was logged (\<open>zone_failures_empty\<close>). What does not hold is below.
\<close>

lemma nat_abs_power_of_ten: "nat \<bar>(10::int) ^ k\<bar> = 10 ^ k"
  by (simp add: nat_power_eq)

lemma huge_int_refused: "str_int 4300 huge_int = Inl (int_str_error 4300)"
proof -
  have "(10::nat) ^ 4300 \<le> 10 ^ 4300" by (rule order_refl)
  then have "4300 < length (str_nat (10 ^ 4300))" by (rule str_nat_long)
  then have "4300 < length (str_nat (nat \<bar>huge_int\<bar>))"
    by (simp only: huge_int_def nat_abs_power_of_ten)
  moreover have "(0::nat) < 4300" by simp
  ultimately show ?thesis by (rule str_int_raises [rotated])
qed

lemma page_one_formats: "str_int 4300 1 = Inr [49]"
  by (simp add: str_int_def Let_def str_nat.simps)

text \<open>
  A zone coordinate of 4301 digits ends the run at line 129 as well, but there the
  \<open>except\<close> clause can write its record: the result is the empty string, and the
  rasterizer is never called.
\<close>

lemma zone_huge_coordinate:
  "extract_text_from_zone env_one_page a_pdf 1 (huge_int, 0, 200, 50) deu =
     ([Exists a_pdf,
       Log ERROR (lit ''Fehler bei Zone OCR f'' @ [252] @ lit ''r '' @ a_pdf @ lit '', Seite ''
         @ [49] @ lit '': '' @ exc_str (int_str_error 4300)) True],
      Inr [])"
proof -
  have ex: "path_exists env_one_page (normpath env_one_page a_pdf)"
    by (simp add: env_one_page_def test_env_paths)
  have lim: "int_max_str_digits env_one_page = 4300"
    by (simp add: env_one_page_def test_env_def)
  have pg: "str_int (int_max_str_digits env_one_page) 1 = Inr [49]"
    by (simp only: lim page_one_formats)
  have "repr_zone 4300 (huge_int, 0, 200, 50) = Inl (int_str_error 4300)"
    by (simp add: repr_zone_def huge_int_refused)
  then have rec: "zone_debug_record env_one_page (normpath env_one_page a_pdf) 1
      (huge_int, 0, 200, 50) = Inl (int_str_error 4300)"
    by (simp add: zone_debug_record_def lim page_one_formats)
  from zone_bad_coordinate [OF ex pg rec, of deu] show ?thesis
    by (simp add: env_one_page_def test_env_paths) (simp add: test_env_def)
qed

text \<open>
  Claim C1 says that neither method ever raises. \<open>extract_text_from_zone\<close> does: for a file
  that exists and a page number of 4301 digits, on an interpreter with the default limit of
  4300 digits, the f-string of line 129 raises \<open>ValueError\<close>, the \<open>except\<close> clause catches
  it, and the f-string of line 160 converts the page number again and raises the same error,
  which leaves the method. The same call with page number 1 returns the stripped OCR text.
\<close>

theorem zone_raises_on_huge_page:
  "path_exists env_one_page (normpath env_one_page a_pdf)
   \<and> extract_text_from_zone env_one_page a_pdf huge_int (0, 0, 200, 50) deu =
       ([Exists a_pdf], Inl (int_str_error 4300))
   \<and> snd (extract_text_from_zone env_one_page a_pdf 1 (0, 0, 200, 50) deu) =
       Inr (lit ''Invoice #123'')"
proof -
  have ex: "path_exists env_one_page (normpath env_one_page a_pdf)"
    by (simp add: env_one_page_def test_env_paths)
  have lim: "int_max_str_digits env_one_page = 4300"
    by (simp add: env_one_page_def test_env_def)
  have "str_int (int_max_str_digits env_one_page) huge_int = Inl (int_str_error 4300)"
    by (simp only: lim huge_int_refused)
  from zone_raises_to_caller [OF ex this, of "(0, 0, 200, 50)" deu]
  have raise: "extract_text_from_zone env_one_page a_pdf huge_int (0, 0, 200, 50) deu =
       ([Exists a_pdf], Inl (int_str_error 4300))"
    by (simp add: env_one_page_def test_env_paths)
  have ok: "snd (extract_text_from_zone env_one_page a_pdf 1 (0, 0, 200, 50) deu) =
       Inr (lit ''Invoice #123'')"
    unfolding env_one_page_def
    by (simp add: test_env_zone strip_invoice_no)
  from ex raise ok show ?thesis by simp
qed

subsection \<open>Page delimiters in the result\<close>

lemma occurs_set: "occurs needle s \<Longrightarrow> set needle \<subseteq> set s"
proof (induction s)
  case Nil
  then show ?case by simp
next
  case (Cons c s)
  from Cons.prems consider "take (length needle) (c # s) = needle" | "occurs needle s"
    by auto
  then show ?case
  proof cases
    case 1
    then have "set needle = set (take (length needle) (c # s))" by simp
    also have "\<dots> \<subseteq> set (c # s)" by (rule set_take_subset)
    finally show ?thesis .
  next
    case 2
    with Cons.IH show ?thesis by auto
  qed
qed

lemma occurrences_zero: "\<not> occurs needle s \<Longrightarrow> occurrences needle s = 0"
  by (induction s) auto

lemma occurs_prefix: "occurs needle (needle @ b)"
proof (cases "needle @ b")
  case Nil
  then show ?thesis by simp
next
  case (Cons c s)
  have "take (length needle) (needle @ b) = needle" by simp
  then have "take (length needle) (c # s) = needle" by (simp only: Cons)
  then have "occurs needle (c # s)" by (simp only: occurs.simps) simp
  then show ?thesis by (simp only: Cons)
qed

lemma occurs_append: "occurs needle (a @ needle @ b)"
proof (induction a)
  case Nil
  show ?case using occurs_prefix [of needle b] by simp
next
  case (Cons x a)
  then show ?case by simp
qed

lemma take_across_newline:
  fixes needle :: pystr
  assumes "10 \<notin> set needle"
  shows "take (length needle) (a @ 10 # b) = needle \<longleftrightarrow> take (length needle) a = needle"
proof (cases "length needle \<le> length a")
  case True
  then show ?thesis by simp
next
  case False
  then obtain k where k: "length needle = length a + Suc k"
    by (metis Suc_diff_Suc add_diff_inverse_nat not_le_imp_less not_less_iff_gr_or_eq
        less_imp_le_nat)
  have "take (length needle) (a @ 10 # b) = a @ 10 # take k b"
    by (simp add: k)
  then have mem: "10 \<in> set (take (length needle) (a @ 10 # b))"
    by (simp only: set_append set_simps) simp
  have l: "take (length needle) (a @ 10 # b) \<noteq> needle"
  proof
    assume eq: "take (length needle) (a @ 10 # b) = needle"
    from mem have "10 \<in> set needle" by (simp only: eq)
    with assms show False by simp
  qed
  have r: "take (length needle) a \<noteq> needle"
  proof
    assume eq: "take (length needle) a = needle"
    have "length (take (length needle) a) = length a"
      using False by simp
    then have "length needle = length a" by (simp only: eq)
    with False show False by simp
  qed
  from l r show ?thesis by simp
qed

lemma occurrences_across_newline:
  fixes needle :: pystr
  assumes "needle \<noteq> []" and "10 \<notin> set needle"
  shows "occurrences needle (a @ 10 # b) = occurrences needle a + occurrences needle b"
proof (induction a)
  case Nil
  from assms have "take (length needle) (10 # b) \<noteq> needle"
    by (cases needle) auto
  with assms(1) show ?case by simp
next
  case (Cons c a)
  have "take (length needle) ((c # a) @ 10 # b) = needle \<longleftrightarrow> take (length needle) (c # a) = needle"
    using assms(2) by (rule take_across_newline)
  with Cons show ?case by simp
qed

lemma str_nat_digits: "set (str_nat n) \<subseteq> {48..57}"
proof (induction n rule: str_nat.induct)
  case (1 n)
  show ?case
  proof (cases "n < 10")
    case True
    then show ?thesis by (subst str_nat.simps) simp
  next
    case False
    have "n mod 10 < 10" by simp
    then have "48 + n mod 10 \<in> {48..57}" by simp
    with False "1.IH" show ?thesis by (subst str_nat.simps) simp
  qed
qed

lemma seite_prefix: "lit ''--- Seite '' = [45, 45, 45, 32, 83, 101, 105, 116, 101, 32]"
  by (simp add: lit_def)

lemma seite_prefix_count:
  "occurrences (lit ''--- Seite '') (lit ''--- Seite '' @ rest) =
     1 + occurrences (lit ''--- Seite '') rest"
  by (simp add: seite_prefix)

lemma seite_not_in_number: "\<not> occurs (lit ''--- Seite '') (str_nat k @ lit '' ---'')"
proof
  assume "occurs (lit ''--- Seite '') (str_nat k @ lit '' ---'')"
  then have "set (lit ''--- Seite '') \<subseteq> set (str_nat k @ lit '' ---'')"
    by (rule occurs_set)
  then have "83 \<in> set (str_nat k) \<union> set (lit '' ---'')"
    by (auto simp: seite_prefix)
  moreover have "83 \<notin> set (lit '' ---'')"
    by (simp add: lit_def)
  moreover have "83 \<notin> set (str_nat k)"
    using str_nat_digits [of k] by auto
  ultimately show False by simp
qed

lemma header_count:
  assumes "\<not> occurs (lit ''--- Seite '') t"
  shows "occurrences (lit ''--- Seite '') (page_header i @ t) = 1"
proof -
  have ne: "lit ''--- Seite '' \<noteq> []" and nl: "10 \<notin> set (lit ''--- Seite '')"
    by (simp_all add: seite_prefix)
  have "page_header i @ t = (lit ''--- Seite '' @ str_nat (i + 1) @ lit '' ---'') @ 10 # t"
    by (simp add: page_header_def)
  then have "occurrences (lit ''--- Seite '') (page_header i @ t) =
      occurrences (lit ''--- Seite '') (lit ''--- Seite '' @ str_nat (i + 1) @ lit '' ---'')
      + occurrences (lit ''--- Seite '') t"
    by (simp only: occurrences_across_newline [OF ne nl])
  also have "\<dots> = 1 + occurrences (lit ''--- Seite '') (str_nat (i + 1) @ lit '' ---'') + 0"
    using assms by (simp add: seite_prefix_count occurrences_zero)
  also have "\<dots> = 1"
    by (simp add: occurrences_zero [OF seite_not_in_number])
  finally show ?thesis .
qed

lemma join_count:
  fixes needle :: pystr
  assumes "needle \<noteq> []" and "10 \<notin> set needle"
  shows "occurrences needle (join [10, 10] bs) = sum_list (map (occurrences needle) bs)"
proof (induction bs)
  case Nil
  from assms(1) show ?case by simp
next
  case (Cons x bs)
  show ?case
  proof (cases bs)
    case Nil
    with assms(1) show ?thesis by simp
  next
    case (Cons y ys)
    have "occurrences needle (10 # join [10, 10] (y # ys)) =
        occurrences needle [] + occurrences needle (join [10, 10] (y # ys))"
      using occurrences_across_newline [OF assms, of "[]" "join [10, 10] (y # ys)"] by simp
    moreover have "occurrences needle (x @ 10 # 10 # join [10, 10] (y # ys)) =
        occurrences needle x + occurrences needle (10 # join [10, 10] (y # ys))"
      by (rule occurrences_across_newline [OF assms])
    ultimately show ?thesis
      using Cons.IH assms(1) by (simp add: Cons)
  qed
qed

lemma blocks_count:
  "list_all (\<lambda>t. \<not> occurs (lit ''--- Seite '') t) texts \<Longrightarrow>
   sum_list (map (occurrences (lit ''--- Seite ''))
     (map (\<lambda>(i, t). page_header i @ t) (enumerate k texts))) = length texts"
  by (induction texts arbitrary: k) (simp_all add: header_count)

lemma join_contains_block:
  "i < length bs \<Longrightarrow> \<exists>pre post. join sep bs = pre @ bs ! i @ post"
proof (induction sep bs arbitrary: i rule: join.induct)
  case (1 sep)
  then show ?case by simp
next
  case (2 sep x)
  then show ?case by (auto intro: exI [of _ "[]"])
next
  case (3 sep x y ys)
  show ?case
  proof (cases i)
    case 0
    show ?thesis
      by (rule exI [of _ "[]"], rule exI [of _ "sep @ join sep (y # ys)"]) (simp add: 0)
  next
    case (Suc j)
    with "3.prems" have "j < length (y # ys)" by simp
    from "3.IH" [OF this] obtain pre post where
      "join sep (y # ys) = pre @ (y # ys) ! j @ post" by blast
    then have "join sep (x # y # ys) = (x @ sep @ pre) @ (x # y # ys) ! i @ post"
      by (simp add: Suc)
    then show ?thesis by blast
  qed
qed

lemma marker_page_result:
  "snd (extract_text_from_pdf env_marker_page a_pdf deu) = Inr marker_page_text"
proof -
  have h: "path_exists env_marker_page (normpath env_marker_page a_pdf)"
    "readable_pdf env_marker_page (normpath env_marker_page a_pdf)"
    "path_exists env_marker_page (poppler_path env_marker_page)"
    "mkdtemp env_marker_page = None"
    "rmtemp env_marker_page = None"
    "convert_from_path env_marker_page (normpath env_marker_page a_pdf) 300 None
        (poppler_path env_marker_page) = Inr [1]"
    unfolding env_marker_page_def
    by (simp_all add: test_env_paths pdf_file_readable) (simp_all add: test_env_def)
  have o: "list_all2 (ocr_reads env_marker_page deu) [1] [lit ''--- Seite 1 ---'']"
    by (simp add: env_marker_page_def test_env_def ocr_reads_def marker_text_def)
  show ?thesis
    using pdf_success_result [OF h o]
    by (simp add: marker_page_text_def page_header_def str_nat.simps lit_def)
qed

text \<open>
  The delimiter the code writes is \<open>--- Seite i ---\<close>: the result for the two-page document
  of \<open>env_two_pages\<close> contains neither \<open>--- Page 1 ---\<close> nor \<open>Page 1\<close>. The delimiters
  are written into the text with no escaping: for the one-page document of
  \<open>env_marker_page\<close>, whose OCR text is itself \<open>--- Seite 1 ---\<close>, the result contains
  that delimiter twice.
\<close>

theorem page_markers_counterexample:
  "snd (extract_text_from_pdf env_two_pages a_pdf deu) = Inr two_pages_text
   \<and> \<not> occurs (lit ''--- Page 1 ---'') two_pages_text
   \<and> \<not> occurs (lit ''Page 1'') two_pages_text
   \<and> snd (extract_text_from_pdf env_marker_page a_pdf deu) = Inr marker_page_text
   \<and> occurrences (lit ''--- Seite 1 ---'') marker_page_text = 2"
proof -
  have "\<not> occurs (lit ''--- Page 1 ---'') two_pages_text"
  proof
    assume "occurs (lit ''--- Page 1 ---'') two_pages_text"
    then have "set (lit ''--- Page 1 ---'') \<subseteq> set two_pages_text"
      by (rule occurs_set)
    then show False
      by (simp add: two_pages_text_def lit_def)
  qed
  moreover have "\<not> occurs (lit ''Page 1'') two_pages_text"
  proof
    assume "occurs (lit ''Page 1'') two_pages_text"
    then have "set (lit ''Page 1'') \<subseteq> set two_pages_text"
      by (rule occurs_set)
    then show False
      by (simp add: two_pages_text_def lit_def)
  qed
  moreover have "occurrences (lit ''--- Seite 1 ---'') marker_page_text = 2"
    by (simp add: marker_page_text_def lit_def)
  ultimately show ?thesis
    using two_pages_result marker_page_result by simp
qed

text \<open>
  Claim C3, amended. On a valid document of \<open>N\<close> pages, the result of
  \<open>extract_text_from_pdf\<close> is the \<open>N\<close> blocks \<open>"--- Seite i ---\n" + t\<^sub>i\<close>,
  \<open>i = 1, \<dots>, N\<close> in this order, joined by a blank line. Each delimiter
  \<open>--- Seite i ---\<close> occurs in the result, and when no page text contains
  \<open>"--- Seite "\<close>, the result contains \<open>"--- Seite "\<close> exactly \<open>N\<close> times.
\<close>

theorem page_markers:
  assumes "path_exists E (normpath E p)"
    and "readable_pdf E (normpath E p)"
    and "path_exists E (poppler_path E)"
    and "mkdtemp E = None"
    and "rmtemp E = None"
    and "convert_from_path E (normpath E p) 300 None (poppler_path E) = Inr images"
    and "list_all2 (ocr_reads E language) images texts"
  shows "\<exists>r. snd (extract_text_from_pdf E p language) = Inr r
     \<and> r = join [10, 10]
           (map (\<lambda>(i, t). lit ''--- Seite '' @ str_nat (i + 1) @ lit '' ---'' @ [10] @ t)
              (enumerate 0 texts))
     \<and> length texts = length images
     \<and> (\<forall>i < length images. occurs (lit ''--- Seite '' @ str_nat (i + 1) @ lit '' ---'') r)
     \<and> (list_all (\<lambda>t. \<not> occurs (lit ''--- Seite '') t) texts \<longrightarrow>
          occurrences (lit ''--- Seite '') r = length images)"
proof -
  let ?blocks = "map (\<lambda>(i, t). page_header i @ t) (enumerate 0 texts)"
  let ?r = "join [10, 10] ?blocks"
  have res: "snd (extract_text_from_pdf E p language) = Inr ?r"
    using assms by (rule pdf_success_result)
  have len: "length texts = length images"
    using assms(7) by (simp add: list_all2_lengthD)
  have hdr: "(\<lambda>(i, t). page_header i @ t) =
      (\<lambda>(i, t). lit ''--- Seite '' @ str_nat (i + 1) @ lit '' ---'' @ [10] @ t)"
    by (simp add: page_header_def fun_eq_iff)
  have occ: "occurs (lit ''--- Seite '' @ str_nat (i + 1) @ lit '' ---'') ?r"
    if "i < length images" for i
  proof -
    from that len have i: "i < length ?blocks" by simp
    from join_contains_block [OF i, of "[10, 10]"] obtain pre post where
      "?r = pre @ ?blocks ! i @ post" by blast
    moreover have "?blocks ! i = page_header i @ texts ! i"
      using that len by (simp add: nth_enumerate_eq)
    ultimately have "?r = pre @ (lit ''--- Seite '' @ str_nat (i + 1) @ lit '' ---'')
        @ ([10] @ texts ! i @ post)"
      by (simp add: page_header_def)
    then show ?thesis
      using occurs_append [of "lit ''--- Seite '' @ str_nat (i + 1) @ lit '' ---''" pre
          "[10] @ texts ! i @ post"]
      by simp
  qed
  have cnt: "occurrences (lit ''--- Seite '') ?r = length images"
    if "list_all (\<lambda>t. \<not> occurs (lit ''--- Seite '') t) texts"
  proof -
    have ne: "lit ''--- Seite '' \<noteq> []" and nl: "10 \<notin> set (lit ''--- Seite '')"
      by (simp_all add: seite_prefix)
    show ?thesis
      using blocks_count [OF that, of 0] len by (simp add: join_count [OF ne nl])
  qed
  show ?thesis
    using res len occ cnt unfolding hdr by blast
qed

theorem page_markers_witness:
  "path_exists env_two_pages (normpath env_two_pages a_pdf)
   \<and> readable_pdf env_two_pages (normpath env_two_pages a_pdf)
   \<and> path_exists env_two_pages (poppler_path env_two_pages)
   \<and> mkdtemp env_two_pages = None
   \<and> rmtemp env_two_pages = None
   \<and> convert_from_path env_two_pages (normpath env_two_pages a_pdf) 300 None
        (poppler_path env_two_pages) = Inr [1, 2]
   \<and> list_all2 (ocr_reads env_two_pages deu) [1, 2] [lit ''INVOICE'' @ [10], lit ''RECEIPT'' @ [10]]
   \<and> \<not> occurs (lit ''--- Seite '') (lit ''INVOICE'' @ [10])
   \<and> \<not> occurs (lit ''--- Seite '') (lit ''RECEIPT'' @ [10])
   \<and> snd (extract_text_from_pdf env_two_pages a_pdf deu) = Inr two_pages_text
   \<and> occurrences (lit ''--- Seite '') two_pages_text = 2
   \<and> occurs (lit ''--- Seite 1 ---'') two_pages_text
   \<and> occurs (lit ''--- Seite 2 ---'') two_pages_text"
proof -
  have h: "path_exists env_two_pages (normpath env_two_pages a_pdf)"
    "readable_pdf env_two_pages (normpath env_two_pages a_pdf)"
    "path_exists env_two_pages (poppler_path env_two_pages)"
    "mkdtemp env_two_pages = None"
    "rmtemp env_two_pages = None"
    "convert_from_path env_two_pages (normpath env_two_pages a_pdf) 300 None
        (poppler_path env_two_pages) = Inr [1, 2]"
    unfolding env_two_pages_def
    by (simp_all add: test_env_paths pdf_file_readable) (simp_all add: test_env_def)
  have o: "list_all2 (ocr_reads env_two_pages deu) [1, 2]
             [lit ''INVOICE'' @ [10], lit ''RECEIPT'' @ [10]]"
    by (simp add: env_two_pages_def test_env_def ocr_reads_def invoice_receipt_def)
  have n: "\<not> occurs (lit ''--- Seite '') (lit ''INVOICE'' @ [10])"
    "\<not> occurs (lit ''--- Seite '') (lit ''RECEIPT'' @ [10])"
    by (simp_all add: lit_def)
  from page_markers [OF h o] obtain r where
    r: "snd (extract_text_from_pdf env_two_pages a_pdf deu) = Inr r"
    and occ: "\<forall>i < length [1::nat, 2]. occurs (lit ''--- Seite '' @ str_nat (i + 1) @ lit '' ---'') r"
    and cnt: "list_all (\<lambda>t. \<not> occurs (lit ''--- Seite '') t)
               [lit ''INVOICE'' @ [10], lit ''RECEIPT'' @ [10]] \<longrightarrow>
             occurrences (lit ''--- Seite '') r = length [1::nat, 2]"
    by blast
  from r have eq: "r = two_pages_text"
    by (simp add: two_pages_result)
  have c: "occurrences (lit ''--- Seite '') two_pages_text = 2"
    using cnt n by (simp add: eq)
  have "occurs (lit ''--- Seite '' @ str_nat (0 + 1) @ lit '' ---'') r"
    using occ by simp
  then have o1: "occurs (lit ''--- Seite 1 ---'') two_pages_text"
    by (simp add: eq str_nat.simps lit_def)
  have "occurs (lit ''--- Seite '' @ str_nat (1 + 1) @ lit '' ---'') r"
    using occ by simp
  then have o2: "occurs (lit ''--- Seite 2 ---'') two_pages_text"
    by (simp add: eq str_nat.simps lit_def)
  show ?thesis
    using h o n two_pages_result c o1 o2 by simp
qed

end
